theory Spec2Isabelle
  imports Main
begin

section \<open>Special commands of the notebook kernel (package specialcmd)\<close>

text \<open>
  A shallow embedding of \<^verbatim>\<open>internal/specialcmd/specialcmd.go\<close>.  A Go string is a
  sequence of bytes and is modelled as \<^typ>\<open>string\<close> (a list of 8-bit characters);
  indexing a string reads one byte.  The set of used lines (\<^verbatim>\<open>Set[int]\<close>) is a set
  of line numbers.  An index out of range, a failed type assertion and a method call on a
  nil interface are run-time panics; they are values of the type \<open>panic\<close>, and a function
  that can panic returns \<open>panic + 'a\<close>.
\<close>

subsection \<open>Characters and run-time panics\<close>

abbreviation (input) space :: char where "space \<equiv> CHR 0x20"
abbreviation (input) tab :: char where "tab \<equiv> CHR 0x09"
abbreviation (input) newline :: char where "newline \<equiv> CHR 0x0A"
abbreviation (input) dquote :: char where "dquote \<equiv> CHR 0x22"
abbreviation (input) backslash :: char where "backslash \<equiv> CHR 0x5C"
abbreviation (input) percent :: char where "percent \<equiv> CHR 0x25"
abbreviation (input) bang :: char where "bang \<equiv> CHR 0x21"
abbreviation (input) star :: char where "star \<equiv> CHR 0x2A"
abbreviation (input) equals :: char where "equals \<equiv> CHR 0x3D"

datatype panic = IndexOutOfRange | TypeAssertion | NilDereference

subsection \<open>splitCmd\<close>

text \<open>
  \<^verbatim>\<open>fmt.Sprintf("%s%c", part, c)\<close> with \<open>c\<close> a byte: the verb \<^verbatim>\<open>%c\<close> prints the
  character whose Unicode code point is the value of \<open>c\<close>, encoded in UTF-8.  A byte below
  128 is printed as itself; a byte from 128 to 255 is printed as the two bytes
  \<open>0xC0 + c div 64\<close> and \<open>0x80 + c mod 64\<close>.  \<open>fmt_c c\<close> is what is appended to the part.
\<close>

definition fmt_c :: "char \<Rightarrow> string" where
  "fmt_c c = (let n = (of_char c :: nat) in
     if n < 128 then [c] else [char_of (192 + n div 64), char_of (128 + n mod 64)])"

definition isSpace :: "char \<Rightarrow> bool" where
  "isSpace c \<longleftrightarrow> c = space \<or> c = tab \<or> c = newline"

text \<open>The switch on the character after a backslash inside quotes.\<close>

definition escaped :: "char \<Rightarrow> char" where
  "escaped c = (if c = CHR ''n'' then newline else if c = CHR ''t'' then tab else c)"

text \<open>
  The loop of \<open>splitCmd\<close> over the bytes of \<open>cmd\<close> from position \<open>pos\<close> on: the
  last argument is the rest of \<open>cmd\<close>, the others are the variables \<open>parts\<close>,
  \<open>part\<close>, \<open>partStarted\<close> and \<open>inQuotes\<close>.  The result is the value returned
  after the loop.
\<close>

fun splitCmd_loop :: "string list \<Rightarrow> string \<Rightarrow> bool \<Rightarrow> bool \<Rightarrow> string \<Rightarrow> string list" where
  "splitCmd_loop parts part partStarted inQuotes [] =
     (if partStarted then parts @ [part] else parts)"
| "splitCmd_loop parts part partStarted inQuotes (c # cs) =
     (if \<not> inQuotes \<and> isSpace c then
        splitCmd_loop (if partStarted then parts @ [part] else parts) [] False inQuotes cs
      else if c = dquote then
        (if inQuotes then splitCmd_loop parts part partStarted False cs
         else splitCmd_loop parts part True True cs)
      else if c = backslash \<and> inQuotes then
        (case cs of
           [] \<Rightarrow> (if partStarted then parts @ [part] else parts)
         | d # ds \<Rightarrow> splitCmd_loop parts (part @ fmt_c (escaped d)) True inQuotes ds)
      else splitCmd_loop parts (part @ fmt_c c) True inQuotes cs)"

definition splitCmd :: "string \<Rightarrow> string list" where
  "splitCmd cmd = splitCmd_loop [] [] False False cmd"

subsection \<open>joinLine and parseCmdBody\<close>

text \<open>
  The loop of \<open>joinLine\<close>, with the variables \<open>fromLine\<close>, \<open>cmdStr\<close> and the set
  \<open>usedLines\<close> (which the Go code updates in place and the model returns).  Reading the
  last byte of an empty \<open>cmdStr\<close> panics.
\<close>

function joinLine_loop ::
  "string list \<Rightarrow> nat \<Rightarrow> string \<Rightarrow> nat set \<Rightarrow> panic + (string \<times> nat set)" where
  "joinLine_loop lines fromLine cmdStr usedLines =
     (if fromLine < length lines then
        (let cmdStr1 = cmdStr @ lines ! fromLine;
             usedLines1 = insert fromLine usedLines
         in if cmdStr1 = [] then Inl IndexOutOfRange
            else if last cmdStr1 \<noteq> backslash then Inr (cmdStr1, usedLines1)
            else joinLine_loop lines (fromLine + 1) (butlast cmdStr1 @ [space]) usedLines1)
      else Inr (cmdStr, usedLines))"
  by pat_completeness auto
termination
  by (relation "measure (\<lambda>(lines, fromLine, cmdStr, usedLines). length lines - fromLine)") auto

declare joinLine_loop.simps [simp del]

definition joinLine :: "string list \<Rightarrow> nat \<Rightarrow> nat set \<Rightarrow> panic + (string \<times> nat set)" where
  "joinLine lines fromLine usedLines = joinLine_loop lines fromLine [] usedLines"

text \<open>A line that starts with one of the two magic symbols, as \<open>parseCmdBody\<close> tests it.\<close>

definition startsWithMagic :: "string \<Rightarrow> bool" where
  "startsWithMagic line \<longleftrightarrow> length line > 0 \<and> (hd line = percent \<or> hd line = bang)"

function parseCmdBody_loop :: "string list \<Rightarrow> nat \<Rightarrow> string \<Rightarrow> nat set \<Rightarrow> string \<times> nat set" where
  "parseCmdBody_loop lines fromLine cmdBody usedLines =
     (if fromLine < length lines then
        (if startsWithMagic (lines ! fromLine) then (cmdBody, usedLines)
         else parseCmdBody_loop lines (fromLine + 1)
                (cmdBody @ lines ! fromLine @ [newline]) (insert fromLine usedLines))
      else (cmdBody, usedLines))"
  by pat_completeness auto
termination
  by (relation "measure (\<lambda>(lines, fromLine, cmdBody, usedLines). length lines - fromLine)") auto

declare parseCmdBody_loop.simps [simp del]

definition parseCmdBody :: "string list \<Rightarrow> nat \<Rightarrow> nat set \<Rightarrow> string \<times> nat set" where
  "parseCmdBody lines fromLine usedLines =
     parseCmdBody_loop lines (fromLine + 1) [] (insert fromLine usedLines)"

subsection \<open>The engine state, the message and the collaborators\<close>

text \<open>
  The fields of \<^verbatim>\<open>goexec.State\<close> that the special commands read or assign.
\<close>

record goexec =
  Args :: "string list"
  CellIsTest :: bool
  CellIsWasm :: bool
  WasmDivId :: string
  GoBuildFlags :: "string list"
  AutoGet :: bool
  TempDir :: string
  UniqueID :: string

text \<open>\<open>cellStatus\<close>: the temporary status of the cell being executed.\<close>

record cellStatus =
  withInputs :: bool
  withPassword :: bool

text \<open>
  The message: \<open>NilMsg\<close> is \<^verbatim>\<open>msg == nil\<close>.  Otherwise it carries the content of the
  composed message and the kernel's execution counter.  The content is nil, or a value
  that is not a \<^verbatim>\<open>map[string]any\<close>, or such a map, of which only the entry
  \<^verbatim>\<open>"allow_stdin"\<close> is read: \<open>Some b\<close> when the entry is the boolean \<open>b\<close>, \<open>None\<close>
  when it is absent or not a boolean.
\<close>

datatype content = NilContent | OtherContent | MapContent "bool option"

datatype message = NilMsg | Msg content int

datatype stream = StreamStdout | StreamStderr

text \<open>
  The texts the commands publish, by their format and arguments:
  \<^item> \<open>HeartbeatPong\<close>: \<^verbatim>\<open>Heartbeat pong received back.\<close>
  \<^item> \<open>HeartbeatTimedOut\<close>: \<^verbatim>\<open>Timed-out, no heartbeat pong received. Try installing front-end websockets with %widgets ?\<close>
  \<^item> \<open>EnvSet k v\<close>: \<^verbatim>\<open>Set: %s=%q\n\<close>
  \<^item> \<open>CurrentDirectory d\<close>: \<^verbatim>\<open>Current directory: %q\n\<close>
  \<^item> \<open>ChangedDirectory d\<close>: \<^verbatim>\<open>Changed directory to %q\n\<close>
  \<^item> \<open>GoFlagsAre fs\<close>: \<^verbatim>\<open>%%goflags=%q\n\<close>
  \<^item> \<open>HelpMessage\<close>: the embedded file help.md
  \<^item> \<open>UnknownCommand n\<close>: \<^verbatim>\<open>"%%%s" unknown or not implemented yet.\<close>
  \<^item> \<open>WriteSuccess f\<close>: \<^verbatim>\<open>write to \<close> f \<^verbatim>\<open> success\n\<close>
\<close>

datatype notice =
    HeartbeatPong
  | HeartbeatTimedOut
  | EnvSet string string
  | CurrentDirectory string
  | ChangedDirectory string
  | GoFlagsAre "string list"
  | HelpMessage
  | UnknownCommand string
  | WriteSuccess string

text \<open>
  The errors the commands return, by their message and arguments; \<open>Failed s\<close> is an
  error that a collaborator returned.
  \<^item> \<open>WasmTakesNoParameters\<close>: \<^verbatim>\<open>`%%wasm` takes no extra parameters.\<close>
  \<^item> \<open>WasmPrepareFailed e\<close>: \<open>e\<close> with the message \<^verbatim>\<open>failed to prepare `%%wasm`\<close>
  \<^item> \<open>EnvTakesTwoArguments n\<close>: \<^verbatim>\<open>`%%env <VAR_NAME> <value>` (or `%%env <VAR_NAME>=<value>`): it takes 2 arguments, the variable name and it's content, but %d were given\<close>
  \<^item> \<open>EnvFailed k v e\<close>: \<open>e\<close> wrapped with \<^verbatim>\<open>`%%env %q %q` failed\<close>
  \<^item> \<open>CdTakesOneArgument n\<close>: \<^verbatim>\<open>`%%cd [<directory>]`: it takes none or one argument, but %d were given\<close>
  \<^item> \<open>CdFailed d e\<close>: \<open>e\<close> wrapped with \<^verbatim>\<open>`%%cd %q` failed\<close>
  \<^item> \<open>ResetTakesGoMod\<close>: \<^verbatim>\<open>%%reset only take one optional parameter "go.mod"\<close>
  \<^item> \<open>WithInputsNotAvailable\<close>, \<open>WithPasswordNotAvailable\<close>:
    \<^verbatim>\<open>%%with_inputs not available in this notebook, it doesn't allow input prompting\<close>
    and the same for \<^verbatim>\<open>%%with_password\<close>
\<close>

datatype err =
    Failed string
  | WasmTakesNoParameters
  | WasmPrepareFailed err
  | EnvTakesTwoArguments int
  | EnvFailed string string err
  | CdTakesOneArgument int
  | CdFailed string err
  | ResetTakesGoMod
  | WithInputsNotAvailable
  | WithPasswordNotAvailable

text \<open>
  How a shell command reads its input: \<^verbatim>\<open>WithInputs(ms)\<close>, \<^verbatim>\<open>WithPassword(ms)\<close> of
  \<^verbatim>\<open>jpyexec\<close>, or neither.
\<close>

datatype input_mode = NoInput | WithInputs nat | WithPassword nat

datatype open_flag = O_RDWR | O_CREATE | O_APPEND | O_TRUNC

text \<open>
  Everything the commands do outside of their own variables is a call to a collaborator
  (the kernel, the Go executor, the operating system, \<^verbatim>\<open>jpyexec\<close>).  The calls are
  recorded in the order they are made.  Logging (\<^verbatim>\<open>klog\<close>) is not recorded.
  \<open>SendHeartbeatAndWait\<close> carries its timeout and the time it waited for the reply, both
  in milliseconds, \<open>OpenFile\<close> the name,
  the flags and the permission bits, \<open>Exec\<close> the command given to \<^verbatim>\<open>/bin/bash -c\<close>,
  the execution counter, the directory and the input mode.
\<close>

datatype call =
    PublishWriteStream stream notice
  | PublishHtml notice
  | PublishMarkdown notice
  | MakeWasmSubdir
  | InstallWebSocket
  | SendHeartbeatAndWait nat nat
  | Setenv string string
  | Getwd
  | Chdir string
  | ResetDefinitions
  | GoModInit
  | ListDefinitions
  | RemoveDefinitions "string list"
  | Track "string list"
  | Untrack "string list"
  | GoWorkFix
  | AutoTrack
  | OpenFile string "open_flag set" nat
  | WriteString string
  | CloseFile
  | Exec string int string input_mode

text \<open>
  What the collaborators answer.  None of them is part of this package, so their answers
  are parameters of the model: \<open>failure\<close> is the error that a call returns after the
  earlier calls (\<open>None\<close> is nil), \<open>pongAfter\<close> the time in milliseconds after which
  the front-end answers a heartbeat sent after the earlier calls (\<open>None\<close> when it never
  answers), \<open>cwd\<close> the directory that \<^verbatim>\<open>os.Getwd\<close> returns, \<open>freshId\<close> the result of
  \<open>UniqueId()\<close>.  \<open>FlagsParse\<close>, \<open>ReplaceTildeInDir\<close> (package \<^verbatim>\<open>common\<close>) and the
  name of the environment variable \<open>GONB_DIR_ENV\<close> (package \<^verbatim>\<open>protocol\<close>) are taken
  as they are; \<open>ReplaceTildeInDir\<close> is Go code that reads its argument and can panic.
\<close>

record collaborators =
  failure :: "call list \<Rightarrow> call \<Rightarrow> err option"
  pongAfter :: "call list \<Rightarrow> nat option"
  cwd :: "call list \<Rightarrow> string"
  freshId :: "call list \<Rightarrow> string"
  FlagsParse :: "string list \<Rightarrow> string set \<Rightarrow> (string \<rightharpoonup> string) \<Rightarrow> (string \<rightharpoonup> string)"
  ReplaceTildeInDir :: "string \<Rightarrow> panic + string"
  GONB_DIR_ENV :: string

record world =
  goExec :: goexec
  calls :: "call list"

text \<open>Making a call: it is appended to the record of calls, and its error is returned.\<close>

definition do_call :: "collaborators \<Rightarrow> call \<Rightarrow> world \<Rightarrow> err option \<times> world" where
  "do_call K c w = (failure K (calls w) c, w\<lparr>calls := calls w @ [c]\<rparr>)"

text \<open>
  Modelled from the spec: \<open>SendHeartbeatAndWait\<close>, a method of the communications of the
  Go executor, which is not in this file.  The spec says of it: "heartbeat supports a
  bounded-timeout liveness probe for a separately installed companion widget communication
  link; timeout yields a "no response" result rather than blocking indefinitely".  So the
  probe waits for the reply, and for the timeout at most: when the reply arrives within
  the timeout it answers true after the time the reply took, and when it does not it
  answers false after the timeout.  The result is the answer and the time waited; times
  are in milliseconds, and the reply is given by the time it takes (\<open>None\<close>: it never
  comes).
\<close>

definition sendHeartbeatAndWait :: "nat \<Rightarrow> nat option \<Rightarrow> bool \<times> nat" where
  "sendHeartbeatAndWait timeout reply =
     (case reply of
        None \<Rightarrow> (False, timeout)
      | Some t \<Rightarrow> if t \<le> timeout then (True, t) else (False, timeout))"

text \<open>\<^verbatim>\<open>MillisecondsWaitForInput\<close>\<close>

definition MillisecondsWaitForInput :: nat where
  "MillisecondsWaitForInput = 200"

subsection \<open>execInternal\<close>

text \<open>\<^verbatim>\<open>content["allow_stdin"].(bool)\<close>: \<open>None\<close> is the panic of the type assertion.\<close>

definition allowStdin :: "message \<Rightarrow> bool option" where
  "allowStdin msg = (case msg of Msg (MapContent b) n \<Rightarrow> b | _ \<Rightarrow> None)"

text \<open>\<^verbatim>\<open>strings.Index(s, "=")\<close>: the index of the first \<open>=\<close>, or \<open>-1\<close>.\<close>

definition indexOfEquals :: "string \<Rightarrow> int" where
  "indexOfEquals s =
     (if equals \<in> set s then int (length (takeWhile (\<lambda>c. c \<noteq> equals) s)) else - 1)"

text \<open>A call whose result is not used, or only logged.\<close>

definition just_call :: "collaborators \<Rightarrow> call \<Rightarrow> world \<Rightarrow> world" where
  "just_call K c w = snd (do_call K c w)"

text \<open>
  \<open>execInternal\<close> returns the error (\<open>None\<close> is nil), the cell status and the world
  after the command.  The cases are those of the switch on \<open>parts[0]\<close>, in its order.
\<close>

definition execInternal ::
  "collaborators \<Rightarrow> message \<Rightarrow> string \<Rightarrow> cellStatus \<Rightarrow> world
     \<Rightarrow> panic + (err option \<times> cellStatus \<times> world)" where
  "execInternal K msg cmdStr status w =
    (case msg of
       Msg OtherContent n \<Rightarrow> Inl TypeAssertion
     | _ \<Rightarrow>
      (let parts = splitCmd cmdStr in
       case parts of
         [] \<Rightarrow> Inl IndexOutOfRange
       | name # args \<Rightarrow>
         if name = ''%'' \<or> name = ''main'' \<or> name = ''args'' \<or> name = ''test'' then
           Inr (None, status,
             w\<lparr>goExec := (goExec w)\<lparr>Args := args,
                  CellIsTest := (if name = ''test'' then True else CellIsTest (goExec w))\<rparr>\<rparr>)
         else if name = ''wasm'' then
           (if length parts > 1 then Inr (Some WasmTakesNoParameters, status, w)
            else
              (let w1 = w\<lparr>goExec := (goExec w)\<lparr>CellIsWasm := True\<rparr>\<rparr>;
                   (e, w2) = do_call K MakeWasmSubdir w1
               in case e of
                    Some e' \<Rightarrow> Inr (Some (WasmPrepareFailed e'), status, w2)
                  | None \<Rightarrow>
                      Inr (None, status,
                        w2\<lparr>goExec := (goExec w2)\<lparr>WasmDivId := freshId K (calls w2)\<rparr>\<rparr>)))
         else if name = ''widgets'' then
           (let (e, w1) = do_call K InstallWebSocket w in Inr (e, status, w1))
         else if name = ''widgets_hb'' then
           (let (hb, waited) = sendHeartbeatAndWait 1000 (pongAfter K (calls w));
                (e, w1) = do_call K (SendHeartbeatAndWait 1000 waited) w
            in case e of
                 Some e' \<Rightarrow> Inr (Some e', status, w1)
               | None \<Rightarrow>
                   (if hb then
                      (let (e2, w2) = do_call K (PublishHtml HeartbeatPong) w1
                       in Inr (e2, status, w2))
                    else
                      (let (e2, w2) = do_call K (PublishHtml HeartbeatTimedOut) w1
                       in Inr (e2, status, w2))))
         else if name = ''env'' then
           (let parts1 =
                  (if length parts = 2 \<and> indexOfEquals (parts ! 1) > 1 then
                     [name, take (nat (indexOfEquals (parts ! 1))) (parts ! 1),
                            drop (nat (indexOfEquals (parts ! 1)) + 1) (parts ! 1)]
                   else parts)
            in if length parts1 \<noteq> 3 then
                 Inr (Some (EnvTakesTwoArguments (int (length parts1) - 1)), status, w)
               else
                 (let (e, w1) = do_call K (Setenv (parts1 ! 1) (parts1 ! 2)) w
                  in case e of
                       Some e' \<Rightarrow> Inr (Some (EnvFailed (parts1 ! 1) (parts1 ! 2) e'), status, w1)
                     | None \<Rightarrow>
                         Inr (None, status,
                           just_call K (PublishWriteStream StreamStdout
                                      (EnvSet (parts1 ! 1) (parts1 ! 2))) w1)))
         else if name = ''cd'' then
           (if length parts = 1 then
              (let pwd = cwd K (calls w);
                   w1 = just_call K Getwd w
               in Inr (None, status,
                    just_call K (PublishWriteStream StreamStdout (CurrentDirectory pwd)) w1))
            else if length parts > 2 then
              Inr (Some (CdTakesOneArgument (int (length parts) - 1)), status, w)
            else
              (case ReplaceTildeInDir K (parts ! 1) of
                 Inl p \<Rightarrow> Inl p
               | Inr dir \<Rightarrow>
                  (let (e, w1) = do_call K (Chdir dir) w
                   in case e of
                        Some e' \<Rightarrow> Inr (Some (CdFailed (parts ! 1) e'), status, w1)
                      | None \<Rightarrow>
                          (let pwd = cwd K (calls w1);
                               w2 = just_call K Getwd w1;
                               w3 = just_call K (PublishWriteStream StreamStdout
                                                   (ChangedDirectory pwd)) w2
                           in Inr (None, status, just_call K (Setenv (GONB_DIR_ENV K) pwd) w3)))))
         else if name = ''goflags'' then
           (let w1 = (if length parts > 1 then
                        w\<lparr>goExec := (goExec w)\<lparr>GoBuildFlags := filter (\<lambda>s. s \<noteq> []) args\<rparr>\<rparr>
                      else w)
            in Inr (None, status,
                 just_call K (PublishWriteStream StreamStdout
                            (GoFlagsAre (GoBuildFlags (goExec w1)))) w1))
         else if name = ''autoget'' then
           Inr (None, status, w\<lparr>goExec := (goExec w)\<lparr>AutoGet := True\<rparr>\<rparr>)
         else if name = ''noautoget'' then
           Inr (None, status, w\<lparr>goExec := (goExec w)\<lparr>AutoGet := False\<rparr>\<rparr>)
         else if name = ''help'' then
           Inr (None, status, just_call K (PublishMarkdown HelpMessage) w)
         else if name = ''reset'' then
           (if length parts = 1 then
              (let (e, w1) = do_call K GoModInit (just_call K ResetDefinitions w)
               in Inr (e, status, w1))
            else if length parts > 2 \<or> parts ! 1 \<noteq> ''go.mod'' then
              Inr (Some ResetTakesGoMod, status, w)
            else (let (e, w1) = do_call K GoModInit w in Inr (e, status, w1)))
         else if name = ''ls'' \<or> name = ''list'' then
           Inr (None, status, just_call K ListDefinitions w)
         else if name = ''rm'' \<or> name = ''remove'' then
           Inr (None, status, just_call K (RemoveDefinitions args) w)
         else if name = ''with_inputs'' then
           (case allowStdin msg of
              None \<Rightarrow> Inl TypeAssertion
            | Some allowInput \<Rightarrow>
                if \<not> allowInput \<and> (withInputs status \<or> withPassword status) then
                  Inr (Some WithInputsNotAvailable, status, w)
                else Inr (None, status\<lparr>withInputs := True\<rparr>, w))
         else if name = ''with_password'' then
           (case allowStdin msg of
              None \<Rightarrow> Inl TypeAssertion
            | Some allowInput \<Rightarrow>
                if \<not> allowInput \<and> (withInputs status \<or> withPassword status) then
                  Inr (Some WithPasswordNotAvailable, status, w)
                else Inr (None, status\<lparr>withPassword := True\<rparr>, w))
         else if name = ''track'' then
           Inr (None, status, just_call K (Track args) w)
         else if name = ''untrack'' then
           Inr (None, status, just_call K (Untrack args) w)
         else if name = ''goworkfix'' then
           (let (e, w1) = do_call K GoWorkFix w in Inr (e, status, w1))
         else
           Inr (None, status,
             just_call K (PublishWriteStream StreamStderr (UnknownCommand name)) w)))"

subsection \<open>execWriteFile and execShell\<close>

text \<open>
  \<open>execWriteFile\<close>: the file is opened, the body written, the success published and the
  file closed (the deferred \<open>Close\<close> runs when the function returns, and only once the
  file is open).  The permission bits \<^verbatim>\<open>0666\<close> are \<open>0x1B6\<close>.
\<close>

definition execWriteFile ::
  "collaborators \<Rightarrow> message \<Rightarrow> string list \<Rightarrow> string \<Rightarrow> world \<Rightarrow> err option \<times> world" where
  "execWriteFile K msg args cmdBody w =
    (let parse = FlagsParse K args {''append''} [''a'' \<mapsto> ''append''];
         appendMode = (parse ''append'' \<noteq> None);
         filename = (case parse ''-pos1'' of
                       Some f \<Rightarrow> f
                     | None \<Rightarrow> UniqueID (goExec w) @ ''.out'');
         fileFlag = {O_RDWR, O_CREATE} \<union> (if appendMode then {O_APPEND} else {O_TRUNC});
         (e, w1) = do_call K (OpenFile filename fileFlag 0x1B6) w
     in case e of
          Some e' \<Rightarrow> (Some e', w1)
        | None \<Rightarrow>
            (let (e2, w2) = do_call K (WriteString cmdBody) w1
             in case e2 of
                  Some e' \<Rightarrow> (Some e', just_call K CloseFile w2)
                | None \<Rightarrow>
                    (let (e3, w3) = do_call K (PublishWriteStream StreamStdout
                                                (WriteSuccess filename)) w2
                     in (e3, just_call K CloseFile w3))))"

text \<open>
  \<open>execShell\<close>: \<open>msg.Kernel()\<close> on a nil message is a panic.  The two flags of the cell
  status are cleared before the command runs.
\<close>

definition execShell ::
  "collaborators \<Rightarrow> message \<Rightarrow> string \<Rightarrow> cellStatus \<Rightarrow> world
     \<Rightarrow> panic + (err option \<times> cellStatus \<times> world)" where
  "execShell K msg cmdStr status w =
    (case cmdStr of
       [] \<Rightarrow> Inl IndexOutOfRange
     | c # cs \<Rightarrow>
        (let (cmdStr1, execDir) =
               (if c = star then (cs, TempDir (goExec w)) else (cmdStr, []))
         in case msg of
              NilMsg \<Rightarrow> Inl NilDereference
            | Msg cont execCounter \<Rightarrow>
                if withInputs status then
                  (let status1 = status\<lparr>withInputs := False, withPassword := False\<rparr>;
                       (e, w1) = do_call K (Exec cmdStr1 execCounter execDir
                                   (WithInputs MillisecondsWaitForInput)) w
                   in Inr (e, status1, w1))
                else if withPassword status then
                  (let status1 = status\<lparr>withInputs := False, withPassword := False\<rparr>;
                       (e, w1) = do_call K (Exec cmdStr1 execCounter execDir
                                   (WithPassword MillisecondsWaitForInput)) w
                   in Inr (e, status1, w1))
                else
                  (let (e, w1) = do_call K (Exec cmdStr1 execCounter execDir NoInput) w
                   in Inr (e, status, w1))))"

subsection \<open>Parse\<close>

text \<open>
  The loop \<^verbatim>\<open>for cmdStr[0] == ' ' { cmdStr = cmdStr[1:] }\<close>: it reads the first byte
  before every test, also when nothing is left.
\<close>

fun skipInitialSpace :: "string \<Rightarrow> panic + string" where
  "skipInitialSpace [] = Inl IndexOutOfRange"
| "skipInitialSpace (c # cs) = (if c = space then skipInitialSpace cs else Inr (c # cs))"

text \<open>
  How one round of the loop of \<open>Parse\<close> ends: with the next line, or with the return
  of \<open>Parse\<close>.  Both carry the variable \<open>err\<close> (the named result), the used lines, the
  cell status and the world.
\<close>

datatype 'a flow = Next 'a | Return 'a

type_synonym parse_state = "err option \<times> nat set \<times> cellStatus \<times> world"

text \<open>
  The body of the loop for a line that is not among the used lines.  The result
  \<open>err\<close> is assigned by every command that is executed, and by \<open>AutoTrack\<close>, whose
  error is logged and does not end the loop.
\<close>

definition parseLine ::
  "collaborators \<Rightarrow> message \<Rightarrow> bool \<Rightarrow> string list \<Rightarrow> nat \<Rightarrow> parse_state
     \<Rightarrow> panic + parse_state flow" where
  "parseLine K msg execute codeLines lineNum st =
    (case st of (err, usedLines, status, w) \<Rightarrow>
      (let line = codeLines ! lineNum in
       if length line > 1 \<and> (hd line = percent \<or> hd line = bang) then
         (case joinLine codeLines lineNum usedLines of
            Inl p \<Rightarrow> Inl p
          | Inr (cmdStr, used1) \<Rightarrow>
             (case cmdStr of
                [] \<Rightarrow> Inl IndexOutOfRange
              | cmdType # cmdStr1 \<Rightarrow>
                 (case skipInitialSpace cmdStr1 of
                    Inl p \<Rightarrow> Inl p
                  | Inr cmdStr2 \<Rightarrow>
                     if length cmdStr2 = 0 then Inr (Next (err, used1, status, w))
                     else if execute then
                       (if cmdType = percent then
                          (let parts = splitCmd cmdStr2 in
                           if length parts > 0 \<and> hd parts = ''writefile'' then
                             (let (cmdBody, used2) = parseCmdBody codeLines lineNum used1;
                                  (e, w1) = execWriteFile K msg (tl parts) cmdBody w
                              in if e \<noteq> None then Inr (Return (e, used2, status, w1))
                                 else Inr (Next (e, used2, status, w1)))
                           else
                             (case execInternal K msg cmdStr2 status w of
                                Inl p \<Rightarrow> Inl p
                              | Inr (e, status1, w1) \<Rightarrow>
                                  if e \<noteq> None then Inr (Return (e, used1, status1, w1))
                                  else Inr (Next (e, used1, status1, w1))))
                        else if cmdType = bang then
                          (case execShell K msg cmdStr2 status w of
                             Inl p \<Rightarrow> Inl p
                           | Inr (e, status1, w1) \<Rightarrow>
                               if e \<noteq> None then Inr (Return (e, used1, status1, w1))
                               else
                                 (let (e2, w2) = do_call K AutoTrack w1
                                  in Inr (Next (e2, used1, status1, w2))))
                        else Inr (Next (err, used1, status, w)))
                     else Inr (Next (err, used1, status, w)))))
       else Inr (Next (err, usedLines, status, w))))"

text \<open>
  The loop of \<open>Parse\<close> from \<open>lineNum\<close> on.  \<open>Parse\<close> returns the error, and the model
  returns with it the used lines and the world as \<open>Parse\<close> leaves them.
\<close>

function parse_loop ::
  "collaborators \<Rightarrow> message \<Rightarrow> bool \<Rightarrow> string list \<Rightarrow> nat \<Rightarrow> parse_state
     \<Rightarrow> panic + (err option \<times> nat set \<times> world)" where
  "parse_loop K msg execute codeLines lineNum st =
    (if lineNum < length codeLines then
       (if lineNum \<in> fst (snd st) then parse_loop K msg execute codeLines (lineNum + 1) st
        else
          (case parseLine K msg execute codeLines lineNum st of
             Inl p \<Rightarrow> Inl p
           | Inr (Return st1) \<Rightarrow> Inr (fst st1, fst (snd st1), snd (snd (snd st1)))
           | Inr (Next st1) \<Rightarrow> parse_loop K msg execute codeLines (lineNum + 1) st1))
     else Inr (fst st, fst (snd st), snd (snd (snd st))))"
  by pat_completeness auto
termination
  by (relation "measure (\<lambda>(K, msg, execute, codeLines, lineNum, st). length codeLines - lineNum)")
    auto

declare parse_loop.simps [simp del]

definition Parse ::
  "collaborators \<Rightarrow> message \<Rightarrow> bool \<Rightarrow> string list \<Rightarrow> nat set \<Rightarrow> world
     \<Rightarrow> panic + (err option \<times> nat set \<times> world)" where
  "Parse K msg execute codeLines usedLines w =
     parse_loop K msg execute codeLines 0
       (None, usedLines, \<lparr>withInputs = False, withPassword = False\<rparr>, w)"

text \<open>
  The same loop, stopped when it reaches the line \<open>upTo\<close>: the rounds for the lines from
  \<open>lineNum\<close> up to, and without, \<open>upTo\<close>.  The result is the state with which the loop
  reaches \<open>upTo\<close>, or the state with which \<open>Parse\<close> returned before, or a panic.
\<close>

function parse_rounds ::
  "collaborators \<Rightarrow> message \<Rightarrow> bool \<Rightarrow> string list \<Rightarrow> nat \<Rightarrow> nat \<Rightarrow> parse_state
     \<Rightarrow> panic + parse_state flow" where
  "parse_rounds K msg execute codeLines lineNum upTo st =
    (if lineNum < upTo \<and> lineNum < length codeLines then
       (if lineNum \<in> fst (snd st) then parse_rounds K msg execute codeLines (lineNum + 1) upTo st
        else
          (case parseLine K msg execute codeLines lineNum st of
             Inl p \<Rightarrow> Inl p
           | Inr (Return st1) \<Rightarrow> Inr (Return st1)
           | Inr (Next st1) \<Rightarrow> parse_rounds K msg execute codeLines (lineNum + 1) upTo st1))
     else Inr (Next st))"
  by pat_completeness auto
termination
  by (relation "measure (\<lambda>(K, msg, execute, codeLines, lineNum, upTo, st). upTo - lineNum)")
    auto

declare parse_rounds.simps [simp del]

section \<open>The specification's words\<close>

text \<open>
  Definitions that follow the words of the specification, to be compared with the
  functions above.
\<close>

subsection \<open>Joining continuation lines\<close>

text \<open>
  A line that ends with the escape marker is joined with the next one, the marker
  replaced by one space: \<open>joined ls\<close> is the logical line that starts with the first
  line of \<open>ls\<close>, and \<open>consumed ls\<close> the number of lines it is made of.
\<close>

definition endsWithBackslash :: "string \<Rightarrow> bool" where
  "endsWithBackslash l \<longleftrightarrow> l \<noteq> [] \<and> last l = backslash"

fun joined :: "string list \<Rightarrow> string" where
  "joined [] = []"
| "joined (l # ls) = (if endsWithBackslash l then butlast l @ [space] @ joined ls else l)"

fun consumed :: "string list \<Rightarrow> nat" where
  "consumed [] = 0"
| "consumed (l # ls) = (if endsWithBackslash l then Suc (consumed ls) else 1)"

subsection \<open>The body of a file-writing directive\<close>

text \<open>
  The body is made of the lines that follow the directive line, up to the first one that
  begins with a sigil or to the end; each is followed by a newline.
\<close>

definition bodyLines :: "string list \<Rightarrow> nat \<Rightarrow> string list" where
  "bodyLines lines fromLine = takeWhile (\<lambda>l. \<not> startsWithMagic l) (drop (fromLine + 1) lines)"

definition bodyText :: "string list \<Rightarrow> string" where
  "bodyText ls = concat (map (\<lambda>l. l @ [newline]) ls)"

subsection \<open>Command lines\<close>

text \<open>
  A line that \<open>Parse\<close> takes for a directive or a shell escape; the text of the logical
  line that starts at a line, after its sigil and the spaces that follow it; and the lines
  the logical line is made of.
\<close>

definition commandLine :: "string \<Rightarrow> bool" where
  "commandLine line \<longleftrightarrow> length line > 1 \<and> (hd line = percent \<or> hd line = bang)"

definition commandText :: "string list \<Rightarrow> nat \<Rightarrow> string" where
  "commandText codeLines lineNum =
     dropWhile (\<lambda>c. c = space) (tl (joined (drop lineNum codeLines)))"

definition usedByCommand :: "string list \<Rightarrow> nat \<Rightarrow> nat set" where
  "usedByCommand codeLines lineNum =
     {lineNum ..< lineNum + consumed (drop lineNum codeLines)}"

text \<open>
  The content of a message that the kernel decoded is nil or a \<^verbatim>\<open>map[string]any\<close>.
\<close>

definition contentOk :: "message \<Rightarrow> bool" where
  "contentOk msg = (case msg of Msg OtherContent n \<Rightarrow> False | _ \<Rightarrow> True)"

subsection \<open>Directive names\<close>

text \<open>The names that the switch of \<open>execInternal\<close> knows.\<close>

definition recognized :: "string list" where
  "recognized = [''%'', ''main'', ''args'', ''test'', ''wasm'', ''widgets'', ''widgets_hb'',
     ''env'', ''cd'', ''goflags'', ''autoget'', ''noautoget'', ''help'', ''reset'', ''ls'',
     ''list'', ''rm'', ''remove'', ''with_inputs'', ''with_password'', ''track'', ''untrack'',
     ''goworkfix'']"

subsection \<open>The input flags\<close>

text \<open>
  The lines that matter for the two flags: a shell escape, and a directive
  \<^verbatim>\<open>%with_inputs\<close> or \<^verbatim>\<open>%with_password\<close>.  The cell status with both flags false; and
  the execution that a shell escape with the text \<open>cmdStr\<close> asks for under a cell status:
  in the temporary directory when the text starts with a star, with inputs when the flag
  for inputs is set, else with a password when the flag for the password is set.
\<close>

definition shellLine :: "string list \<Rightarrow> nat \<Rightarrow> bool" where
  "shellLine codeLines l \<longleftrightarrow> commandLine (codeLines ! l) \<and> hd (codeLines ! l) = bang"

definition flagDirective :: "string list \<Rightarrow> nat \<Rightarrow> bool" where
  "flagDirective codeLines l \<longleftrightarrow>
     commandLine (codeLines ! l) \<and> hd (codeLines ! l) = percent \<and>
     (case splitCmd (commandText codeLines l) of
        [] \<Rightarrow> False
      | name # args \<Rightarrow> name = ''with_inputs'' \<or> name = ''with_password'')"

abbreviation cleared :: cellStatus where
  "cleared \<equiv> \<lparr>withInputs = False, withPassword = False\<rparr>"

abbreviation shellCall :: "world \<Rightarrow> int \<Rightarrow> string \<Rightarrow> cellStatus \<Rightarrow> call" where
  "shellCall w n cmdStr status \<equiv>
     Exec (if hd cmdStr = star then tl cmdStr else cmdStr) n
          (if hd cmdStr = star then TempDir (goExec w) else [])
          (if withInputs status then WithInputs 200
           else if withPassword status then WithPassword 200
           else NoInput)"

section \<open>Concrete inputs\<close>

text \<open>
  An engine state, a message and collaborators at which the functions are evaluated.
  With these collaborators no call fails and no heartbeat is answered; their
  \<open>FlagsParse\<close> knows the flag \<^verbatim>\<open>-a\<close> and takes the first other argument for the
  first positional one; their \<open>ReplaceTildeInDir\<close> panics on the empty directory and
  gives back any other one.
\<close>

definition exampleGoExec :: goexec where
  "exampleGoExec = \<lparr>Args = [], CellIsTest = False, CellIsWasm = False, WasmDivId = [],
     GoBuildFlags = [], AutoGet = True, TempDir = ''/tmp/gonb_1'', UniqueID = ''gonb_1''\<rparr>"

definition exampleWorld :: world where
  "exampleWorld = \<lparr>goExec = exampleGoExec, calls = []\<rparr>"

definition exampleMsg :: message where
  "exampleMsg = Msg (MapContent (Some True)) 7"

definition exampleFlagsParse ::
  "string list \<Rightarrow> string set \<Rightarrow> (string \<rightharpoonup> string) \<Rightarrow> (string \<rightharpoonup> string)" where
  "exampleFlagsParse args noValArg schema =
     (\<lambda>k. if k = ''append'' then (if ''-a'' \<in> set args then Some [] else None)
          else if k = ''-pos1'' then
            (case filter (\<lambda>a. a \<noteq> ''-a'') args of [] \<Rightarrow> None | f # fs \<Rightarrow> Some f)
          else None)"

definition exampleCollaborators :: collaborators where
  "exampleCollaborators = \<lparr>failure = (\<lambda>cs c. None), pongAfter = (\<lambda>cs. None),
     cwd = (\<lambda>cs. ''/home/user''), freshId = (\<lambda>cs. ''id1''),
     FlagsParse = exampleFlagsParse,
     ReplaceTildeInDir = (\<lambda>d. if d = [] then Inl IndexOutOfRange else Inr d),
     GONB_DIR_ENV = ''GONB_DIR''\<rparr>"

text \<open>Collaborators for which publishing the report of a timed-out heartbeat fails.\<close>

definition publishFails :: collaborators where
  "publishFails = exampleCollaborators
     \<lparr>failure := (\<lambda>cs c. if c = PublishHtml HeartbeatTimedOut then Some (Failed ''closed'')
                         else None)\<rparr>"

section \<open>Properties\<close>

subsection \<open>Splitting a command into its parts\<close>

text \<open>
  C1.  Splitting the line \<^verbatim>\<open>%args --text "hello world"\<close> gives exactly the three parts
  \<^verbatim>\<open>%args\<close>, \<^verbatim>\<open>--text\<close> and \<^verbatim>\<open>hello world\<close>: the quoted substring stays one part with
  its space, and the quote characters are not part of the output.
\<close>

theorem splitCmd_args_hello_world:
  "splitCmd (''%args --text '' @ [dquote] @ ''hello world'' @ [dquote])
     = [''%args'', ''--text'', ''hello world'']"
  by code_simp

subsection \<open>Joining continuation lines\<close>

lemma drop_as_Cons: "i < length xs \<Longrightarrow> drop i xs = xs ! i # drop (Suc i) xs"
  by (simp add: Cons_nth_drop_Suc)

lemma used_interval:
  "insert i U \<union> {i + 1 ..< i + 1 + n} = U \<union> {i ..< i + Suc n}"
  by auto

lemma joinLine_loop_joined:
  "cmdStr \<noteq> [] \<Longrightarrow> last cmdStr \<noteq> backslash \<Longrightarrow>
   joinLine_loop lines fromLine cmdStr usedLines =
     Inr (cmdStr @ joined (drop fromLine lines),
          usedLines \<union> {fromLine ..< fromLine + consumed (drop fromLine lines)})"
proof (induction lines fromLine cmdStr usedLines rule: joinLine_loop.induct)
  case (1 lines fromLine cmdStr usedLines)
  show ?case
  proof (cases "fromLine < length lines")
    case False
    then show ?thesis by (simp add: joinLine_loop.simps)
  next
    case True
    let ?l = "lines ! fromLine"
    have d: "drop fromLine lines = ?l # drop (fromLine + 1) lines"
      using True by (simp add: drop_as_Cons)
    show ?thesis
    proof (cases "endsWithBackslash ?l")
      case False
      then have "last (cmdStr @ ?l) \<noteq> backslash"
        using "1.prems" by (auto simp: endsWithBackslash_def last_append)
      then have "joinLine_loop lines fromLine cmdStr usedLines
                   = Inr (cmdStr @ ?l, insert fromLine usedLines)"
        using True "1.prems" by (subst joinLine_loop.simps) (simp add: Let_def)
      moreover have "joined (drop fromLine lines) = ?l" "consumed (drop fromLine lines) = 1"
        using False by (simp_all add: d)
      ultimately show ?thesis by auto
    next
      case eb: True
      then have l: "last (cmdStr @ ?l) = backslash" "cmdStr @ ?l \<noteq> []"
        by (auto simp: endsWithBackslash_def)
      let ?acc = "butlast (cmdStr @ ?l) @ [space]"
      have "joinLine_loop lines fromLine cmdStr usedLines
              = joinLine_loop lines (fromLine + 1) ?acc (insert fromLine usedLines)"
        using True l "1.prems" by (subst joinLine_loop.simps) (simp add: Let_def)
      also have "\<dots> = Inr (?acc @ joined (drop (fromLine + 1) lines),
                insert fromLine usedLines \<union>
                  {fromLine + 1 ..< fromLine + 1 + consumed (drop (fromLine + 1) lines)})"
        using True l by (intro "1.IH") auto
      also have "?acc @ joined (drop (fromLine + 1) lines) = cmdStr @ joined (drop fromLine lines)"
        using eb by (simp add: d endsWithBackslash_def butlast_append)
      also have "insert fromLine usedLines \<union>
                  {fromLine + 1 ..< fromLine + 1 + consumed (drop (fromLine + 1) lines)}
                 = usedLines \<union> {fromLine ..< fromLine + consumed (drop fromLine lines)}"
        using eb by (simp only: used_interval d consumed.simps if_True)
      finally show ?thesis .
    qed
  qed
qed

lemma joinLine_nonempty:
  assumes "fromLine < length lines" and "lines ! fromLine \<noteq> []"
  shows "joinLine lines fromLine usedLines =
     Inr (joined (drop fromLine lines),
          usedLines \<union> {fromLine ..< fromLine + consumed (drop fromLine lines)})"
proof -
  let ?l = "lines ! fromLine"
  have d: "drop fromLine lines = ?l # drop (fromLine + 1) lines"
    using assms(1) by (simp add: drop_as_Cons)
  show ?thesis
  proof (cases "endsWithBackslash ?l")
    case False
    then have "last ?l \<noteq> backslash" using assms(2) by (simp add: endsWithBackslash_def)
    then have "joinLine lines fromLine usedLines = Inr (?l, insert fromLine usedLines)"
      using assms unfolding joinLine_def
      by (subst joinLine_loop.simps) (simp add: Let_def)
    moreover have "joined (drop fromLine lines) = ?l" "consumed (drop fromLine lines) = 1"
      using False by (simp_all add: d)
    ultimately show ?thesis by auto
  next
    case True
    then have l: "last ?l = backslash" by (simp add: endsWithBackslash_def)
    let ?acc = "butlast ?l @ [space]"
    have "joinLine lines fromLine usedLines
            = joinLine_loop lines (fromLine + 1) ?acc (insert fromLine usedLines)"
      using assms l unfolding joinLine_def
      by (subst joinLine_loop.simps) (simp add: Let_def)
    also have "\<dots> = Inr (?acc @ joined (drop (fromLine + 1) lines),
                insert fromLine usedLines \<union>
                  {fromLine + 1 ..< fromLine + 1 + consumed (drop (fromLine + 1) lines)})"
      by (rule joinLine_loop_joined) auto
    also have "?acc @ joined (drop (fromLine + 1) lines) = joined (drop fromLine lines)"
      using True by (simp add: d)
    also have "insert fromLine usedLines \<union>
                  {fromLine + 1 ..< fromLine + 1 + consumed (drop (fromLine + 1) lines)}
                 = usedLines \<union> {fromLine ..< fromLine + consumed (drop fromLine lines)}"
      using True by (simp only: used_interval d consumed.simps if_True)
    finally show ?thesis .
  qed
qed

text \<open>
  C2.  For all lines and every index of a line that is not empty (in particular of a
  line that ends with a backslash), \<open>joinLine\<close> returns the logical line that starts
  there: each trailing backslash is replaced by one space and the next line appended, as
  long as the line appended ends with a backslash and is not the last one; and the lines
  it is made of, the first one included, are added to the used lines.
\<close>

theorem joinLine_joins:
  assumes "fromLine < length lines" and "lines ! fromLine \<noteq> []"
  shows "joinLine lines fromLine usedLines =
     Inr (joined (drop fromLine lines),
          usedLines \<union> {fromLine ..< fromLine + consumed (drop fromLine lines)})"
  using assms by (rule joinLine_nonempty)

theorem joinLine_joins_witness:
  "joinLine [''x'', ''!echo a'' @ [backslash], ''b'' @ [backslash], ''c'', ''d''] 1 {}
     = Inr (''!echo a b c'', {1, 2, 3})"
proof -
  let ?lines = "[''x'', ''!echo a'' @ [backslash], ''b'' @ [backslash], ''c'', ''d'']"
  have "joinLine ?lines 1 {} =
     Inr (joined (drop 1 ?lines), {} \<union> {1 ..< 1 + consumed (drop 1 ?lines)})"
    by (rule joinLine_joins) simp_all
  also have "joined (drop 1 ?lines) = ''!echo a b c''"
    by (simp add: endsWithBackslash_def)
  also have "{} \<union> {1 ..< 1 + consumed (drop 1 ?lines)} = {1, 2, 3}"
    by (auto simp: endsWithBackslash_def)
  finally show ?thesis .
qed

subsection \<open>The body of a file-writing directive\<close>

lemma parseCmdBody_loop_takeWhile:
  "parseCmdBody_loop lines fromLine cmdBody usedLines =
     (cmdBody @ bodyText (takeWhile (\<lambda>l. \<not> startsWithMagic l) (drop fromLine lines)),
      usedLines \<union> {fromLine ..< fromLine + length (takeWhile (\<lambda>l. \<not> startsWithMagic l) (drop fromLine lines))})"
proof (induction lines fromLine cmdBody usedLines rule: parseCmdBody_loop.induct)
  case (1 lines fromLine cmdBody usedLines)
  show ?case
  proof (cases "fromLine < length lines")
    case False
    then show ?thesis by (subst parseCmdBody_loop.simps) (simp add: bodyText_def)
  next
    case True
    let ?l = "lines ! fromLine"
    have d: "drop fromLine lines = ?l # drop (fromLine + 1) lines"
      using True by (simp add: drop_as_Cons)
    show ?thesis
    proof (cases "startsWithMagic ?l")
      case True
      with \<open>fromLine < length lines\<close> show ?thesis
        by (subst parseCmdBody_loop.simps) (simp add: d bodyText_def)
    next
      case False
      let ?rest = "takeWhile (\<lambda>l. \<not> startsWithMagic l) (drop (fromLine + 1) lines)"
      have tw: "takeWhile (\<lambda>l. \<not> startsWithMagic l) (drop fromLine lines) = ?l # ?rest"
        using False by (simp add: d)
      have "parseCmdBody_loop lines fromLine cmdBody usedLines
              = parseCmdBody_loop lines (fromLine + 1) (cmdBody @ ?l @ [newline])
                  (insert fromLine usedLines)"
        using True False by (subst parseCmdBody_loop.simps) simp
      also have "\<dots> = ((cmdBody @ ?l @ [newline]) @ bodyText ?rest,
                   insert fromLine usedLines \<union> {fromLine + 1 ..< fromLine + 1 + length ?rest})"
        using True False by (rule "1.IH")
      also have "(cmdBody @ ?l @ [newline]) @ bodyText ?rest
                   = cmdBody @ bodyText (takeWhile (\<lambda>l. \<not> startsWithMagic l) (drop fromLine lines))"
        using False by (simp add: d bodyText_def)
      also have "insert fromLine usedLines \<union> {fromLine + 1 ..< fromLine + 1 + length ?rest}
                   = usedLines \<union> {fromLine ..< fromLine
                       + length (takeWhile (\<lambda>l. \<not> startsWithMagic l) (drop fromLine lines))}"
        by (simp only: used_interval tw length_Cons)
      finally show ?thesis .
    qed
  qed
qed

lemma parseCmdBody_body:
  "parseCmdBody lines fromLine usedLines =
     (bodyText (bodyLines lines fromLine),
      insert fromLine usedLines \<union> {fromLine + 1 ..< fromLine + 1 + length (bodyLines lines fromLine)})"
  by (simp add: parseCmdBody_def parseCmdBody_loop_takeWhile bodyLines_def)

subsection \<open>One round of the loop of Parse\<close>

lemma skipInitialSpace_dropWhile:
  "skipInitialSpace s =
     (if dropWhile (\<lambda>c. c = space) s = [] then Inl IndexOutOfRange
      else Inr (dropWhile (\<lambda>c. c = space) s))"
  by (induction s) auto

lemma joined_hd:
  "length l > 1 \<Longrightarrow> joined (l # ls) = hd l # tl (joined (l # ls))"
  by (cases l) (auto simp: endsWithBackslash_def)

lemma joinLine_command:
  assumes "lineNum < length codeLines" and "commandLine (codeLines ! lineNum)"
  shows "joinLine codeLines lineNum usedLines =
     Inr (hd (codeLines ! lineNum) # tl (joined (drop lineNum codeLines)),
          usedLines \<union> usedByCommand codeLines lineNum)"
proof -
  have ne: "codeLines ! lineNum \<noteq> []" and len: "length (codeLines ! lineNum) > 1"
    using assms(2) by (auto simp: commandLine_def)
  have "joined (drop lineNum codeLines)
          = hd (codeLines ! lineNum) # tl (joined (drop lineNum codeLines))"
    using joined_hd [OF len] assms(1) by (simp add: drop_as_Cons)
  then show ?thesis
    using joinLine_nonempty [OF assms(1) ne, of usedLines] by (simp add: usedByCommand_def)
qed

text \<open>The loop body on a command line, up to the point where the command is executed.\<close>

lemma parseLine_command:
  assumes "lineNum < length codeLines" and "commandLine (codeLines ! lineNum)"
  shows "parseLine K msg execute codeLines lineNum (err, usedLines, status, w) =
    (let cmdType = hd (codeLines ! lineNum);
         cmdStr = commandText codeLines lineNum;
         used1 = usedLines \<union> usedByCommand codeLines lineNum
     in if cmdStr = [] then Inl IndexOutOfRange
        else if execute then
          (if cmdType = percent then
             (let parts = splitCmd cmdStr in
              if length parts > 0 \<and> hd parts = ''writefile'' then
                (let (cmdBody, used2) = parseCmdBody codeLines lineNum used1;
                     (e, w1) = execWriteFile K msg (tl parts) cmdBody w
                 in if e \<noteq> None then Inr (Return (e, used2, status, w1))
                    else Inr (Next (e, used2, status, w1)))
              else
                (case execInternal K msg cmdStr status w of
                   Inl p \<Rightarrow> Inl p
                 | Inr (e, status1, w1) \<Rightarrow>
                     if e \<noteq> None then Inr (Return (e, used1, status1, w1))
                     else Inr (Next (e, used1, status1, w1))))
           else
             (case execShell K msg cmdStr status w of
                Inl p \<Rightarrow> Inl p
              | Inr (e, status1, w1) \<Rightarrow>
                  if e \<noteq> None then Inr (Return (e, used1, status1, w1))
                  else
                    (let (e2, w2) = do_call K AutoTrack w1
                     in Inr (Next (e2, used1, status1, w2)))))
        else Inr (Next (err, used1, status, w)))"
proof -
  have c: "length (codeLines ! lineNum) > 1"
      "hd (codeLines ! lineNum) = percent \<or> hd (codeLines ! lineNum) = bang"
    using assms(2) by (auto simp: commandLine_def)
  show ?thesis
    unfolding parseLine_def
    using c
    by (auto simp add: joinLine_command [OF assms] skipInitialSpace_dropWhile
          commandText_def Let_def split: sum.splits prod.splits)
qed

lemma parseLine_other:
  assumes "\<not> commandLine (codeLines ! lineNum)"
  shows "parseLine K msg execute codeLines lineNum st = Inr (Next st)"
  using assms unfolding parseLine_def commandLine_def
  by (auto simp: Let_def split: prod.splits)

subsection \<open>The loop of Parse\<close>

lemma parse_loop_used:
  "lineNum < length codeLines \<Longrightarrow> lineNum \<in> usedLines \<Longrightarrow>
   parse_loop K msg execute codeLines lineNum (err, usedLines, status, w)
     = parse_loop K msg execute codeLines (lineNum + 1) (err, usedLines, status, w)"
  by (subst parse_loop.simps) simp

lemma parse_loop_end:
  "length codeLines \<le> lineNum \<Longrightarrow>
   parse_loop K msg execute codeLines lineNum (err, usedLines, status, w) = Inr (err, usedLines, w)"
  by (subst parse_loop.simps) simp

lemma parse_loop_other:
  "lineNum < length codeLines \<Longrightarrow> \<not> commandLine (codeLines ! lineNum) \<Longrightarrow>
   parse_loop K msg execute codeLines lineNum st
     = parse_loop K msg execute codeLines (lineNum + 1) st"
  by (subst parse_loop.simps) (simp add: parseLine_other)

lemma parse_loop_skip:
  "a \<le> b \<Longrightarrow> b \<le> length codeLines \<Longrightarrow> (\<forall>i. a \<le> i \<and> i < b \<longrightarrow> \<not> commandLine (codeLines ! i)) \<Longrightarrow>
   parse_loop K msg execute codeLines a st = parse_loop K msg execute codeLines b st"
proof (induction "b - a" arbitrary: a)
  case 0
  then show ?case by simp
next
  case (Suc d)
  then have "a < length codeLines" "\<not> commandLine (codeLines ! a)" by auto
  then have "parse_loop K msg execute codeLines a st
               = parse_loop K msg execute codeLines (a + 1) st"
    by (rule parse_loop_other)
  also have "\<dots> = parse_loop K msg execute codeLines b st"
    using Suc.prems Suc.hyps(2) by (intro Suc.hyps(1)) auto
  finally show ?case .
qed

lemma blank_command:
  assumes "lineNum < length codeLines"
      and "codeLines ! lineNum = c # replicate (Suc n) space"
  shows "commandText codeLines lineNum = []"
proof -
  have "\<not> endsWithBackslash (c # replicate (Suc n) space)"
    by (simp add: endsWithBackslash_def)
  then have "joined (drop lineNum codeLines) = c # replicate (Suc n) space"
    using assms by (simp add: drop_as_Cons)
  then show ?thesis
    by (simp add: commandText_def)
qed

text \<open>
  C3 (as amended).  When the loop of \<open>Parse\<close> reaches a line that is not among the used
  lines and that is \<^verbatim>\<open>%\<close> or \<^verbatim>\<open>!\<close> followed by one or more spaces and nothing else,
  the loop that skips the spaces reads the first byte of the empty string: \<open>Parse\<close>
  panics.  The loop reaches the line, in particular, when no earlier line is a command
  line.
\<close>

theorem Parse_panics_on_blank_command:
  assumes "lineNum < length codeLines"
      and "codeLines ! lineNum = c # replicate (Suc n) space"
      and "c = percent \<or> c = bang"
      and "lineNum \<notin> usedLines"
  shows "parse_loop K msg execute codeLines lineNum (err, usedLines, status, w)
           = Inl IndexOutOfRange
       \<and> ((\<forall>i < lineNum. \<not> commandLine (codeLines ! i)) \<longrightarrow>
            Parse K msg execute codeLines usedLines w = Inl IndexOutOfRange)"
proof -
  have cl: "commandLine (codeLines ! lineNum)"
    using assms(2,3) by (auto simp: commandLine_def)
  have line: "parseLine K msg execute codeLines lineNum (e, usedLines, s, w) = Inl IndexOutOfRange"
    for e s
    by (simp add: parseLine_command [OF assms(1) cl] blank_command [OF assms(1,2)])
  have loop: "parse_loop K msg execute codeLines lineNum (e, usedLines, s, w) = Inl IndexOutOfRange"
    for e s
    using assms(1,4) by (subst parse_loop.simps) (simp add: line)
  have "Parse K msg execute codeLines usedLines w = Inl IndexOutOfRange"
    if "\<forall>i < lineNum. \<not> commandLine (codeLines ! i)"
  proof -
    have "parse_loop K msg execute codeLines 0
            (None, usedLines, \<lparr>withInputs = False, withPassword = False\<rparr>, w)
          = parse_loop K msg execute codeLines lineNum
            (None, usedLines, \<lparr>withInputs = False, withPassword = False\<rparr>, w)"
      using assms(1) that by (intro parse_loop_skip) auto
    then show ?thesis by (simp add: Parse_def loop)
  qed
  with loop show ?thesis by blast
qed

theorem Parse_panics_on_blank_command_witness:
  "Parse exampleCollaborators exampleMsg True [''x := 1'', ''%  '', ''!ls''] {} exampleWorld
     = Inl IndexOutOfRange"
proof -
  let ?lines = "[''x := 1'', ''%  '', ''!ls'']"
  have "(\<forall>i < 1. \<not> commandLine (?lines ! i)) \<longrightarrow>
          Parse exampleCollaborators exampleMsg True ?lines {} exampleWorld = Inl IndexOutOfRange"
    using Parse_panics_on_blank_command [of 1 ?lines percent 1 "{}" exampleCollaborators
        exampleMsg True None "\<lparr>withInputs = False, withPassword = False\<rparr>" exampleWorld]
    by simp
  moreover have "\<forall>i < 1. \<not> commandLine (?lines ! i)"
    by (simp add: commandLine_def)
  ultimately show ?thesis by blast
qed

text \<open>
  C3 as stated fails: a submission can contain such a line and \<open>Parse\<close> return, because
  the line was used as the continuation of the line before it.
\<close>

theorem Parse_skips_blank_command_in_continuation:
  "Parse exampleCollaborators exampleMsg False [''!ls '' @ [backslash], ''% ''] {} exampleWorld
     = Inr (None, {0, 1}, exampleWorld)"
  by (auto simp add: Parse_def parse_loop.simps parseLine_def joinLine_def joinLine_loop.simps
        Let_def)

lemma in_usedByCommand:
  assumes "lineNum < length codeLines" and "codeLines ! lineNum \<noteq> []"
  shows "lineNum \<in> usedByCommand codeLines lineNum"
proof -
  have "0 < consumed (drop lineNum codeLines)"
    using assms by (simp add: drop_as_Cons)
  then show ?thesis
    by (simp add: usedByCommand_def)
qed

text \<open>
  Without execution \<open>Parse\<close> makes no call and changes nothing of the engine state: if
  it does not panic it returns nil, and the used lines are extended by every command line
  and by nothing but the lines of the commands.
\<close>

lemma parse_loop_without_execute:
  "parse_loop K msg False codeLines lineNum (err, usedLines, status, w) = Inl IndexOutOfRange
   \<or> (\<exists>used. parse_loop K msg False codeLines lineNum (err, usedLines, status, w)
                = Inr (err, used, w)
          \<and> usedLines \<subseteq> used
          \<and> (\<forall>i. lineNum \<le> i \<and> i < length codeLines \<and> commandLine (codeLines ! i)
                 \<longrightarrow> i \<in> used)
          \<and> used \<subseteq> usedLines \<union> (\<Union>i \<in> {i. lineNum \<le> i \<and> i < length codeLines
                                        \<and> commandLine (codeLines ! i)}.
                                     usedByCommand codeLines i))"
proof (induction "length codeLines - lineNum" arbitrary: lineNum usedLines)
  case 0
  then show ?case by (auto simp add: parse_loop_end)
next
  case (Suc d)
  then have lt: "lineNum < length codeLines" by simp
  let ?P = "\<lambda>n u r. r = Inl IndexOutOfRange
     \<or> (\<exists>used. r = Inr (err, used, w) \<and> u \<subseteq> used
          \<and> (\<forall>i. n \<le> i \<and> i < length codeLines \<and> commandLine (codeLines ! i) \<longrightarrow> i \<in> used)
          \<and> used \<subseteq> u \<union> (\<Union>i \<in> {i. n \<le> i \<and> i < length codeLines
                                        \<and> commandLine (codeLines ! i)}.
                                     usedByCommand codeLines i))"
  have ih: "?P (lineNum + 1) u
              (parse_loop K msg False codeLines (lineNum + 1) (err, u, status, w))" for u
    using Suc.hyps(2) by (intro Suc.hyps(1)) simp
  have step: "?P lineNum usedLines r"
    if r: "?P (lineNum + 1) u r" and u: "usedLines \<subseteq> u"
      and cov: "commandLine (codeLines ! lineNum) \<longrightarrow> lineNum \<in> u"
      and up: "u \<subseteq> usedLines \<union> (if commandLine (codeLines ! lineNum)
                                 then usedByCommand codeLines lineNum else {})"
    for u r
  proof (cases "r = Inl IndexOutOfRange")
    case True
    then show ?thesis by simp
  next
    case False
    then obtain used where used: "r = Inr (err, used, w)" "u \<subseteq> used"
      "\<forall>i. lineNum + 1 \<le> i \<and> i < length codeLines \<and> commandLine (codeLines ! i) \<longrightarrow> i \<in> used"
      "used \<subseteq> u \<union> (\<Union>i \<in> {i. lineNum + 1 \<le> i \<and> i < length codeLines
                                        \<and> commandLine (codeLines ! i)}.
                                     usedByCommand codeLines i)"
      using r by blast
    have a: "usedLines \<subseteq> used" using u used(2) by blast
    have b: "\<forall>i. lineNum \<le> i \<and> i < length codeLines \<and> commandLine (codeLines ! i) \<longrightarrow> i \<in> used"
    proof (intro allI impI)
      fix i assume i: "lineNum \<le> i \<and> i < length codeLines \<and> commandLine (codeLines ! i)"
      show "i \<in> used"
      proof (cases "i = lineNum")
        case True
        then show ?thesis using i cov used(2) by blast
      next
        case False
        then have "lineNum + 1 \<le> i" using i by simp
        then show ?thesis using i used(3) by blast
      qed
    qed
    have c: "used \<subseteq> usedLines \<union> (\<Union>i \<in> {i. lineNum \<le> i \<and> i < length codeLines
                                        \<and> commandLine (codeLines ! i)}.
                                     usedByCommand codeLines i)"
    proof
      fix x assume "x \<in> used"
      then consider "x \<in> u"
        | i where "lineNum + 1 \<le> i" "i < length codeLines" "commandLine (codeLines ! i)"
                  "x \<in> usedByCommand codeLines i"
        using used(4) by blast
      then show "x \<in> usedLines \<union> (\<Union>i \<in> {i. lineNum \<le> i \<and> i < length codeLines
                                        \<and> commandLine (codeLines ! i)}.
                                     usedByCommand codeLines i)"
      proof cases
        case 1
        then show ?thesis using up lt by (auto split: if_splits)
      next
        case 2
        then have "lineNum \<le> i" by simp
        with 2 show ?thesis by blast
      qed
    qed
    show ?thesis using used(1) a b c by blast
  qed
  show ?case
  proof (cases "lineNum \<in> usedLines")
    case True
    then have "parse_loop K msg False codeLines lineNum (err, usedLines, status, w)
                 = parse_loop K msg False codeLines (lineNum + 1) (err, usedLines, status, w)"
      using lt by (simp add: parse_loop_used)
    moreover have "?P lineNum usedLines
                     (parse_loop K msg False codeLines (lineNum + 1) (err, usedLines, status, w))"
      using True by (intro step [OF ih]) auto
    ultimately show ?thesis by simp
  next
    case notused: False
    show ?thesis
    proof (cases "commandLine (codeLines ! lineNum)")
      case False
      then have "parse_loop K msg False codeLines lineNum (err, usedLines, status, w)
                 = parse_loop K msg False codeLines (lineNum + 1) (err, usedLines, status, w)"
        using lt by (simp add: parse_loop_other)
      moreover have "?P lineNum usedLines
                     (parse_loop K msg False codeLines (lineNum + 1) (err, usedLines, status, w))"
        using False by (intro step [OF ih]) auto
      ultimately show ?thesis by simp
    next
      case True
      show ?thesis
      proof (cases "commandText codeLines lineNum = []")
        case empty: True
        have "parseLine K msg False codeLines lineNum (err, usedLines, status, w)
                = Inl IndexOutOfRange"
          by (simp add: parseLine_command [OF lt True] empty)
        then have "parse_loop K msg False codeLines lineNum (err, usedLines, status, w)
                = Inl IndexOutOfRange"
          using lt notused by (subst parse_loop.simps) simp
        then show ?thesis by simp
      next
        case False
        let ?u = "usedLines \<union> usedByCommand codeLines lineNum"
        have "parseLine K msg False codeLines lineNum (err, usedLines, status, w)
                = Inr (Next (err, ?u, status, w))"
          by (simp add: parseLine_command [OF lt True] False)
        then have "parse_loop K msg False codeLines lineNum (err, usedLines, status, w)
                = parse_loop K msg False codeLines (lineNum + 1) (err, ?u, status, w)"
          using lt notused by (subst parse_loop.simps) simp
        moreover have "codeLines ! lineNum \<noteq> []"
          using True by (auto simp: commandLine_def)
        then have "lineNum \<in> ?u"
          using in_usedByCommand [OF lt] by simp
        then have "?P lineNum usedLines
                     (parse_loop K msg False codeLines (lineNum + 1) (err, ?u, status, w))"
          using True by (intro step [OF ih]) auto
        ultimately show ?thesis by simp
      qed
    qed
  qed
qed

lemma Parse_without_execute:
  "Parse K msg False codeLines usedLines w = Inl IndexOutOfRange
   \<or> (\<exists>used. Parse K msg False codeLines usedLines w = Inr (None, used, w)
          \<and> usedLines \<subseteq> used
          \<and> (\<forall>i. i < length codeLines \<and> commandLine (codeLines ! i) \<longrightarrow> i \<in> used)
          \<and> used \<subseteq> usedLines \<union> (\<Union>i \<in> {i. i < length codeLines \<and> commandLine (codeLines ! i)}.
                                     usedByCommand codeLines i))"
  using parse_loop_without_execute [of K msg codeLines 0 None usedLines
          "\<lparr>withInputs = False, withPassword = False\<rparr>" w]
  by (simp add: Parse_def)

text \<open>
  C9.  With \<open>execute\<close> false \<open>Parse\<close> does not return nil for every input: on the
  single line \<^verbatim>\<open>%\<close> followed by a space it panics.
\<close>

theorem Parse_without_execute_panics:
  "Parse exampleCollaborators exampleMsg False [''% ''] {} exampleWorld = Inl IndexOutOfRange"
  by (simp add: Parse_def parse_loop.simps parseLine_def joinLine_def joinLine_loop.simps
        Let_def)

subsection \<open>Directives\<close>

lemma execInternal_unknown:
  assumes "contentOk msg" and "splitCmd cmdStr = name # args" and "name \<notin> set recognized"
  shows "execInternal K msg cmdStr status w =
     Inr (None, status,
       w\<lparr>calls := calls w @ [PublishWriteStream StreamStderr (UnknownCommand name)]\<rparr>)"
  using assms
  by (simp add: execInternal_def contentOk_def recognized_def just_call_def do_call_def
       split: message.splits content.splits)

text \<open>
  C6.  A directive whose name the switch does not know does not end the submission: the
  name is published as a warning on the error stream, \<open>execInternal\<close> returns nil, and
  the loop of \<open>Parse\<close> goes on with the next line, the lines of the directive added to
  the used lines.
\<close>

theorem unknown_directive_continues:
  assumes "contentOk msg"
      and "lineNum < length codeLines" and "lineNum \<notin> usedLines"
      and "commandLine (codeLines ! lineNum)" and "hd (codeLines ! lineNum) = percent"
      and "splitCmd (commandText codeLines lineNum) = name # args"
      and "name \<notin> set recognized" and "name \<noteq> ''writefile''"
  shows "execInternal K msg (commandText codeLines lineNum) status w =
           Inr (None, status,
             w\<lparr>calls := calls w @ [PublishWriteStream StreamStderr (UnknownCommand name)]\<rparr>)
       \<and> parse_loop K msg True codeLines lineNum (err, usedLines, status, w) =
           parse_loop K msg True codeLines (lineNum + 1)
             (None, usedLines \<union> usedByCommand codeLines lineNum, status,
              w\<lparr>calls := calls w @ [PublishWriteStream StreamStderr (UnknownCommand name)]\<rparr>)"
proof -
  let ?cmd = "commandText codeLines lineNum"
  have ne: "?cmd \<noteq> []"
    using assms(6) by (auto simp: splitCmd_def)
  have ex: "execInternal K msg ?cmd status w =
           Inr (None, status,
             w\<lparr>calls := calls w @ [PublishWriteStream StreamStderr (UnknownCommand name)]\<rparr>)"
    using assms(1,6,7) by (rule execInternal_unknown)
  have "parseLine K msg True codeLines lineNum (err, usedLines, status, w) =
          Inr (Next (None, usedLines \<union> usedByCommand codeLines lineNum, status,
              w\<lparr>calls := calls w @ [PublishWriteStream StreamStderr (UnknownCommand name)]\<rparr>))"
    using ne assms(5,6,8)
    by (simp add: parseLine_command [OF assms(2,4)] ex)
  then have "parse_loop K msg True codeLines lineNum (err, usedLines, status, w) =
           parse_loop K msg True codeLines (lineNum + 1)
             (None, usedLines \<union> usedByCommand codeLines lineNum, status,
              w\<lparr>calls := calls w @ [PublishWriteStream StreamStderr (UnknownCommand name)]\<rparr>)"
    using assms(2,3) by (subst parse_loop.simps) simp
  with ex show ?thesis by simp
qed

theorem unknown_directive_continues_witness:
  "execInternal exampleCollaborators exampleMsg ''frobnicate now''
       \<lparr>withInputs = False, withPassword = False\<rparr> exampleWorld =
     Inr (None, \<lparr>withInputs = False, withPassword = False\<rparr>,
       exampleWorld\<lparr>calls := [PublishWriteStream StreamStderr (UnknownCommand ''frobnicate'')]\<rparr>)
   \<and> Parse exampleCollaborators exampleMsg True
       [''%frobnicate now'', ''x := 1'', ''%noautoget''] {} exampleWorld =
     Inr (None, {0, 2}, \<lparr>goExec = exampleGoExec\<lparr>AutoGet := False\<rparr>,
        calls = [PublishWriteStream StreamStderr (UnknownCommand ''frobnicate'')]\<rparr>)"
proof -
  let ?lines = "[''%frobnicate now'', ''x := 1'', ''%noautoget'']"
  let ?st = "\<lparr>withInputs = False, withPassword = False\<rparr>"
  let ?w = "exampleWorld\<lparr>calls := calls exampleWorld
              @ [PublishWriteStream StreamStderr (UnknownCommand ''frobnicate'')]\<rparr>"
  have t: "commandText ?lines 0 = ''frobnicate now''"
    by (simp add: commandText_def endsWithBackslash_def)
  have s: "splitCmd ''frobnicate now'' = [''frobnicate'', ''now'']"
    by code_simp
  have "execInternal exampleCollaborators exampleMsg (commandText ?lines 0) ?st exampleWorld =
           Inr (None, ?st, ?w)
       \<and> parse_loop exampleCollaborators exampleMsg True ?lines 0 (None, {}, ?st, exampleWorld) =
           parse_loop exampleCollaborators exampleMsg True ?lines (0 + 1)
             (None, {} \<union> usedByCommand ?lines 0, ?st, ?w)"
    by (rule unknown_directive_continues)
      (simp_all add: t s contentOk_def exampleMsg_def commandLine_def recognized_def)
  moreover have "parse_loop exampleCollaborators exampleMsg True ?lines (0 + 1)
             (None, {} \<union> usedByCommand ?lines 0, ?st, ?w)
         = Inr (None, {0, 2}, \<lparr>goExec = exampleGoExec\<lparr>AutoGet := False\<rparr>,
        calls = [PublishWriteStream StreamStderr (UnknownCommand ''frobnicate'')]\<rparr>)"
    by code_simp
  ultimately show ?thesis
    by (simp add: Parse_def t exampleWorld_def)
qed

lemma sendHeartbeatAndWait_bounded:
  "snd (sendHeartbeatAndWait timeout reply) \<le> timeout"
  "fst (sendHeartbeatAndWait timeout reply) \<longleftrightarrow> (\<exists>t. reply = Some t \<and> t \<le> timeout)"
  by (simp_all add: sendHeartbeatAndWait_def split: option.splits)

lemma execInternal_widgets_hb:
  assumes "contentOk msg" and "splitCmd cmdStr = ''widgets_hb'' # args"
  shows "execInternal K msg cmdStr status w =
    (let hb = fst (sendHeartbeatAndWait 1000 (pongAfter K (calls w)));
         waited = snd (sendHeartbeatAndWait 1000 (pongAfter K (calls w)));
         probe = SendHeartbeatAndWait 1000 waited;
         w1 = w\<lparr>calls := calls w @ [probe]\<rparr>
     in case failure K (calls w) probe of
          Some e \<Rightarrow> Inr (Some e, status, w1)
        | None \<Rightarrow>
            (let report = PublishHtml (if hb then HeartbeatPong else HeartbeatTimedOut)
             in Inr (failure K (calls w1) report, status,
                     w1\<lparr>calls := calls w1 @ [report]\<rparr>)))"
  using assms
  by (simp add: execInternal_def contentOk_def do_call_def Let_def case_prod_beta
       split: message.splits content.splits option.splits)

text \<open>
  C8 (as amended).  \<^verbatim>\<open>%widgets_hb\<close> waits for the reply to the heartbeat with a timeout
  of one second (1000 milliseconds): the time waited is at most the timeout, and the
  answer is positive only when the reply arrived within it.  An error of the probe is
  returned.  Otherwise a report is published, the timed-out one when no reply arrived
  within the timeout, and what is returned is the result of publishing it: nil, or the
  error of the publication.
\<close>

theorem heartbeat_probe:
  assumes "contentOk msg" and "splitCmd cmdStr = ''widgets_hb'' # args"
  shows "\<exists>hb waited.
      waited \<le> 1000
    \<and> (hb \<longleftrightarrow> (\<exists>t. pongAfter K (calls w) = Some t \<and> t \<le> 1000))
    \<and> execInternal K msg cmdStr status w =
        (let probe = SendHeartbeatAndWait 1000 waited;
             w1 = w\<lparr>calls := calls w @ [probe]\<rparr>
         in case failure K (calls w) probe of
              Some e \<Rightarrow> Inr (Some e, status, w1)
            | None \<Rightarrow>
                (let report = PublishHtml (if hb then HeartbeatPong else HeartbeatTimedOut)
                 in Inr (failure K (calls w1) report, status,
                         w1\<lparr>calls := calls w1 @ [report]\<rparr>)))"
proof (intro exI conjI)
  show "snd (sendHeartbeatAndWait 1000 (pongAfter K (calls w))) \<le> 1000"
    by (rule sendHeartbeatAndWait_bounded)
  show "fst (sendHeartbeatAndWait 1000 (pongAfter K (calls w)))
          \<longleftrightarrow> (\<exists>t. pongAfter K (calls w) = Some t \<and> t \<le> 1000)"
    by (rule sendHeartbeatAndWait_bounded)
  show "execInternal K msg cmdStr status w =
        (let probe = SendHeartbeatAndWait 1000
                       (snd (sendHeartbeatAndWait 1000 (pongAfter K (calls w))));
             w1 = w\<lparr>calls := calls w @ [probe]\<rparr>
         in case failure K (calls w) probe of
              Some e \<Rightarrow> Inr (Some e, status, w1)
            | None \<Rightarrow>
                (let report = PublishHtml
                       (if fst (sendHeartbeatAndWait 1000 (pongAfter K (calls w)))
                        then HeartbeatPong else HeartbeatTimedOut)
                 in Inr (failure K (calls w1) report, status,
                         w1\<lparr>calls := calls w1 @ [report]\<rparr>)))"
    using execInternal_widgets_hb [OF assms] by (simp add: Let_def)
qed

theorem heartbeat_probe_witness:
  "\<exists>waited. waited \<le> 1000
     \<and> execInternal exampleCollaborators exampleMsg ''widgets_hb''
         \<lparr>withInputs = False, withPassword = False\<rparr> exampleWorld =
       Inr (None, \<lparr>withInputs = False, withPassword = False\<rparr>,
         exampleWorld\<lparr>calls := [SendHeartbeatAndWait 1000 waited,
                                  PublishHtml HeartbeatTimedOut]\<rparr>)"
proof -
  have s: "splitCmd ''widgets_hb'' = ''widgets_hb'' # []"
    by code_simp
  have c: "contentOk exampleMsg"
    by (simp add: contentOk_def exampleMsg_def)
  obtain hb waited where w: "waited \<le> 1000"
    and hb: "hb \<longleftrightarrow> (\<exists>t. pongAfter exampleCollaborators (calls exampleWorld) = Some t \<and> t \<le> 1000)"
    and ex: "execInternal exampleCollaborators exampleMsg ''widgets_hb''
         \<lparr>withInputs = False, withPassword = False\<rparr> exampleWorld =
        (let probe = SendHeartbeatAndWait 1000 waited;
             w1 = exampleWorld\<lparr>calls := calls exampleWorld @ [probe]\<rparr>
         in case failure exampleCollaborators (calls exampleWorld) probe of
              Some e \<Rightarrow> Inr (Some e, \<lparr>withInputs = False, withPassword = False\<rparr>, w1)
            | None \<Rightarrow>
                (let report = PublishHtml (if hb then HeartbeatPong else HeartbeatTimedOut)
                 in Inr (failure exampleCollaborators (calls w1) report,
                         \<lparr>withInputs = False, withPassword = False\<rparr>,
                         w1\<lparr>calls := calls w1 @ [report]\<rparr>)))"
    using heartbeat_probe [OF c s, of exampleCollaborators exampleWorld
            "\<lparr>withInputs = False, withPassword = False\<rparr>"]
    by blast
  have "\<not> hb"
    using hb by (simp add: exampleCollaborators_def)
  then have "execInternal exampleCollaborators exampleMsg ''widgets_hb''
         \<lparr>withInputs = False, withPassword = False\<rparr> exampleWorld =
       Inr (None, \<lparr>withInputs = False, withPassword = False\<rparr>,
         exampleWorld\<lparr>calls := [SendHeartbeatAndWait 1000 waited,
                                  PublishHtml HeartbeatTimedOut]\<rparr>)"
    using ex by (simp add: exampleCollaborators_def exampleWorld_def)
  with w show ?thesis by blast
qed

text \<open>
  C8 as stated fails: an error that is not the probe's is returned when the report cannot
  be published.
\<close>

theorem heartbeat_publish_error_returned:
  "failure publishFails [] (SendHeartbeatAndWait 1000 1000) = None
   \<and> execInternal publishFails exampleMsg ''widgets_hb''
       \<lparr>withInputs = False, withPassword = False\<rparr> exampleWorld =
     Inr (Some (Failed ''closed''), \<lparr>withInputs = False, withPassword = False\<rparr>,
       exampleWorld\<lparr>calls := [SendHeartbeatAndWait 1000 1000,
                                PublishHtml HeartbeatTimedOut]\<rparr>)"
  by code_simp

lemma indexOfEquals_single: "indexOfEquals (k # equals # v) \<le> 1"
  by (simp add: indexOfEquals_def)

text \<open>
  C10.  \<^verbatim>\<open>%env NAME=VALUE\<close> is rewritten to the form with two arguments only when the
  first \<open>=\<close> is at an index greater than 1.  With a name of one character the argument is
  not split, and the directive fails with the error that two arguments are needed, one
  being given; the form with two arguments sets the variable (and publishes it).
\<close>

theorem env_single_character_name:
  assumes "contentOk msg"
  shows "(splitCmd cmdStr = [''env'', arg] \<and> indexOfEquals arg \<le> 1 \<longrightarrow>
            execInternal K msg cmdStr status w =
              Inr (Some (EnvTakesTwoArguments 1), status, w))
       \<and> (splitCmd cmdStr = [''env'', k # equals # v] \<longrightarrow>
            execInternal K msg cmdStr status w =
              Inr (Some (EnvTakesTwoArguments 1), status, w))
       \<and> (splitCmd cmdStr = [''env'', arg] \<and> indexOfEquals arg > 1 \<and>
          splitCmd cmdStr' = [''env'', take (nat (indexOfEquals arg)) arg,
                              drop (nat (indexOfEquals arg) + 1) arg] \<longrightarrow>
            execInternal K msg cmdStr status w = execInternal K msg cmdStr' status w)
       \<and> (splitCmd cmdStr = [''env'', key, val] \<longrightarrow>
            execInternal K msg cmdStr status w =
              (case failure K (calls w) (Setenv key val) of
                 Some e \<Rightarrow>
                   Inr (Some (EnvFailed key val e), status,
                        w\<lparr>calls := calls w @ [Setenv key val]\<rparr>)
               | None \<Rightarrow>
                   Inr (None, status,
                        w\<lparr>calls := calls w @ [Setenv key val,
                              PublishWriteStream StreamStdout (EnvSet key val)]\<rparr>)))"
proof -
  have a: "execInternal K msg cmdStr status w = Inr (Some (EnvTakesTwoArguments 1), status, w)"
    if "splitCmd cmdStr = [''env'', arg]" "indexOfEquals arg \<le> 1" for arg
    using assms that
    by (simp add: execInternal_def contentOk_def Let_def
         split: message.splits content.splits)
  have b: "execInternal K msg c status w =
              (case failure K (calls w) (Setenv key val) of
                 Some e \<Rightarrow>
                   Inr (Some (EnvFailed key val e), status,
                        w\<lparr>calls := calls w @ [Setenv key val]\<rparr>)
               | None \<Rightarrow>
                   Inr (None, status,
                        w\<lparr>calls := calls w @ [Setenv key val,
                              PublishWriteStream StreamStdout (EnvSet key val)]\<rparr>))"
    if "splitCmd c = [''env'', key, val]" for c key val
    using assms that
    by (simp add: execInternal_def contentOk_def Let_def do_call_def just_call_def
         split: message.splits content.splits option.splits)
  have c: "execInternal K msg cmdStr status w = execInternal K msg cmdStr' status w"
    if "splitCmd cmdStr = [''env'', arg]" "indexOfEquals arg > 1"
       "splitCmd cmdStr' = [''env'', take (nat (indexOfEquals arg)) arg,
                              drop (nat (indexOfEquals arg) + 1) arg]" for arg
    unfolding b [OF that(3)]
    using assms that(1,2)
    by (simp add: execInternal_def contentOk_def Let_def do_call_def just_call_def
         split: message.splits content.splits option.splits)
  show ?thesis
    using a b c indexOfEquals_single by blast
qed

theorem env_single_character_name_witness:
  "execInternal exampleCollaborators exampleMsg ''env K=V''
       \<lparr>withInputs = False, withPassword = False\<rparr> exampleWorld =
     Inr (Some (EnvTakesTwoArguments 1), \<lparr>withInputs = False, withPassword = False\<rparr>,
          exampleWorld)
   \<and> execInternal exampleCollaborators exampleMsg ''env K V''
       \<lparr>withInputs = False, withPassword = False\<rparr> exampleWorld =
     Inr (None, \<lparr>withInputs = False, withPassword = False\<rparr>,
          exampleWorld\<lparr>calls := [Setenv ''K'' ''V'',
             PublishWriteStream StreamStdout (EnvSet ''K'' ''V'')]\<rparr>)
   \<and> execInternal exampleCollaborators exampleMsg ''env KEY=V''
       \<lparr>withInputs = False, withPassword = False\<rparr> exampleWorld =
     execInternal exampleCollaborators exampleMsg ''env KEY V''
       \<lparr>withInputs = False, withPassword = False\<rparr> exampleWorld"
proof -
  have s: "splitCmd ''env K=V'' = [''env'', CHR ''K'' # equals # ''V'']"
          "splitCmd ''env K V'' = [''env'', ''K'', ''V'']"
          "splitCmd ''env KEY=V'' = [''env'', ''KEY=V'']"
          "splitCmd ''env KEY V'' = [''env'', ''KEY'', ''V'']"
    by code_simp+
  have i: "indexOfEquals ''KEY=V'' = 3"
    by (simp add: indexOfEquals_def)
  have c: "contentOk exampleMsg"
    by (simp add: contentOk_def exampleMsg_def)
  show ?thesis
    using env_single_character_name [OF c, where cmdStr = "''env K=V''" and arg = "''K=V''"
            and k = "CHR ''K''" and v = "''V''" and K = exampleCollaborators
            and status = "\<lparr>withInputs = False, withPassword = False\<rparr>" and w = exampleWorld]
          env_single_character_name [OF c, where cmdStr = "''env K V''"
            and key = "''K''" and val = "''V''" and K = exampleCollaborators
            and status = "\<lparr>withInputs = False, withPassword = False\<rparr>" and w = exampleWorld]
          env_single_character_name [OF c, where cmdStr = "''env KEY=V''" and arg = "''KEY=V''"
            and cmdStr' = "''env KEY V''" and K = exampleCollaborators
            and status = "\<lparr>withInputs = False, withPassword = False\<rparr>" and w = exampleWorld]
    by (simp add: s i exampleCollaborators_def exampleWorld_def)
qed

subsection \<open>Shell escapes and the input flags\<close>

lemma execShell_run:
  "execShell K (Msg cont n) (c # cs) status w =
     Inr (failure K (calls w) (shellCall w n (c # cs) status), cleared,
          w\<lparr>calls := calls w @ [shellCall w n (c # cs) status]\<rparr>)"
  by (cases status)
     (simp add: execShell_def do_call_def MillisecondsWaitForInput_def Let_def)

lemma execInternal_no_command:
  "splitCmd cmdStr = [] \<Longrightarrow> \<exists>p. execInternal K msg cmdStr status w = Inl p"
  by (simp add: execInternal_def split: message.splits content.splits)

lemma execInternal_status:
  assumes "execInternal K msg cmdStr status w = Inr (e, status', w')"
      and "splitCmd cmdStr = name # args"
      and "name \<noteq> ''with_inputs''" and "name \<noteq> ''with_password''"
  shows "status' = status"
  using assms
  by (auto simp: execInternal_def Let_def
        split: message.splits content.splits if_splits option.splits prod.splits sum.splits)


lemma parseLine_status:
  assumes "\<not> shellLine codeLines l" and "\<not> flagDirective codeLines l"
      and "l < length codeLines"
      and "parseLine K msg execute codeLines l (err, used, status, w)
             = Inr (Next (err', used', status', w'))"
  shows "status' = status"
proof (cases "commandLine (codeLines ! l)")
  case False
  then show ?thesis
    using assms(4) by (simp add: parseLine_other)
next
  case True
  then have pc: "hd (codeLines ! l) = percent"
    using assms(1) by (auto simp: shellLine_def commandLine_def)
  show ?thesis
  proof (cases "splitCmd (commandText codeLines l)")
    case Nil
    then obtain p where "execInternal K msg (commandText codeLines l) status w = Inl p"
      using execInternal_no_command by blast
    then show ?thesis
      using assms(4) Nil pc
      by (auto simp: parseLine_command [OF assms(3) True] Let_def split: if_splits)
  next
    case (Cons name args)
    then have n: "name \<noteq> ''with_inputs''" "name \<noteq> ''with_password''"
      using assms(2) True pc by (auto simp: flagDirective_def)
    show ?thesis
      using assms(4) Cons pc execInternal_status [OF _ Cons n]
      by (auto simp: parseLine_command [OF assms(3) True] Let_def
            split: if_splits sum.splits prod.splits)
  qed
qed

lemma parse_rounds_status:
  assumes "\<forall>l. a \<le> l \<and> l < b \<longrightarrow> \<not> shellLine codeLines l \<and> \<not> flagDirective codeLines l"
      and "parse_rounds K msg execute codeLines a b (err, used, status, w)
             = Inr (Next (err', used', status', w'))"
  shows "status' = status"
  using assms
proof (induction "b - a" arbitrary: a err used w)
  case 0
  then show ?case by (subst (asm) parse_rounds.simps) simp
next
  case (Suc d)
  show ?case
  proof (cases "a < length codeLines")
    case False
    then show ?thesis
      using Suc.prems(2) by (subst (asm) parse_rounds.simps) simp
  next
    case lt: True
    have ab: "a < b" using Suc.hyps(2) by simp
    have rest: "\<forall>l. a + 1 \<le> l \<and> l < b \<longrightarrow> \<not> shellLine codeLines l \<and> \<not> flagDirective codeLines l"
      using Suc.prems(1) by simp
    have d: "d = b - (a + 1)" using Suc.hyps(2) by simp
    show ?thesis
    proof (cases "a \<in> used")
      case True
      then have "parse_rounds K msg execute codeLines (a + 1) b (err, used, status, w)
                   = Inr (Next (err', used', status', w'))"
        using Suc.prems(2) lt ab by (subst (asm) parse_rounds.simps) simp
      then show ?thesis
        using Suc.hyps(1) [OF d rest] by blast
    next
      case False
      then have c: "(case parseLine K msg execute codeLines a (err, used, status, w) of
             Inl p \<Rightarrow> Inl p
           | Inr (Return st1) \<Rightarrow> Inr (Return st1)
           | Inr (Next st1) \<Rightarrow> parse_rounds K msg execute codeLines (a + 1) b st1)
          = Inr (Next (err', used', status', w'))"
        using Suc.prems(2) lt ab by (subst (asm) parse_rounds.simps) simp
      then obtain e1 u1 s1 w1 where
        pl: "parseLine K msg execute codeLines a (err, used, status, w) = Inr (Next (e1, u1, s1, w1))"
        and r: "parse_rounds K msg execute codeLines (a + 1) b (e1, u1, s1, w1)
                  = Inr (Next (err', used', status', w'))"
        by (auto split: sum.splits flow.splits)
      have "s1 = status"
        using Suc.prems(1) ab lt pl by (intro parseLine_status [of codeLines a]) auto
      with r have "parse_rounds K msg execute codeLines (a + 1) b (e1, u1, status, w1)
                  = Inr (Next (err', used', status', w'))"
        by simp
      then show ?thesis
        using Suc.hyps(1) [OF d rest] by blast
    qed
  qed
qed

lemma parse_loop_rounds:
  assumes "b \<le> length codeLines"
  shows "a \<le> b \<Longrightarrow> parse_loop K msg execute codeLines a st =
    (case parse_rounds K msg execute codeLines a b st of
       Inl p \<Rightarrow> Inl p
     | Inr (Return st1) \<Rightarrow> Inr (fst st1, fst (snd st1), snd (snd (snd st1)))
     | Inr (Next st1) \<Rightarrow> parse_loop K msg execute codeLines b st1)"
proof (induction "b - a" arbitrary: a st)
  case 0
  then have "a = b" by simp
  then show ?case by (subst parse_rounds.simps) simp
next
  case (Suc d)
  then have ab: "a < b" and lt: "a < length codeLines" using assms by simp_all
  have ih: "parse_loop K msg execute codeLines (a + 1) s =
    (case parse_rounds K msg execute codeLines (a + 1) b s of
       Inl p \<Rightarrow> Inl p
     | Inr (Return st1) \<Rightarrow> Inr (fst st1, fst (snd st1), snd (snd (snd st1)))
     | Inr (Next st1) \<Rightarrow> parse_loop K msg execute codeLines b st1)" for s
    using Suc.hyps(2) ab by (intro Suc.hyps(1)) simp_all
  have L: "parse_loop K msg execute codeLines a st =
    (if a \<in> fst (snd st) then parse_loop K msg execute codeLines (a + 1) st
     else
       (case parseLine K msg execute codeLines a st of
          Inl p \<Rightarrow> Inl p
        | Inr (Return st1) \<Rightarrow> Inr (fst st1, fst (snd st1), snd (snd (snd st1)))
        | Inr (Next st1) \<Rightarrow> parse_loop K msg execute codeLines (a + 1) st1))"
    using lt by (subst parse_loop.simps) simp
  have R: "parse_rounds K msg execute codeLines a b st =
    (if a \<in> fst (snd st) then parse_rounds K msg execute codeLines (a + 1) b st
     else
       (case parseLine K msg execute codeLines a st of
          Inl p \<Rightarrow> Inl p
        | Inr (Return st1) \<Rightarrow> Inr (Return st1)
        | Inr (Next st1) \<Rightarrow> parse_rounds K msg execute codeLines (a + 1) b st1))"
    using ab lt by (subst parse_rounds.simps) simp
  show ?case
  proof (cases "a \<in> fst (snd st)")
    case True
    then show ?thesis unfolding L R by (simp only: ih if_True)
  next
    case False
    show ?thesis
    proof (cases "parseLine K msg execute codeLines a st")
      case (Inl p)
      then show ?thesis unfolding L R using False by simp
    next
      case (Inr f)
      then show ?thesis unfolding L R using False by (cases f) (simp_all only: ih if_False sum.case flow.case)
    qed
  qed
qed

lemma parse_loop_shell:
  assumes "j < length codeLines" and "j \<notin> used" and "shellLine codeLines j"
      and "commandText codeLines j \<noteq> []"
  shows "parse_loop K (Msg cont n) True codeLines j (err, used, status, w) =
      (let run = shellCall w n (commandText codeLines j) status;
           w1 = w\<lparr>calls := calls w @ [run]\<rparr>;
           used1 = used \<union> usedByCommand codeLines j
       in case failure K (calls w) run of
            Some e \<Rightarrow> Inr (Some e, used1, w1)
          | None \<Rightarrow>
              parse_loop K (Msg cont n) True codeLines (j + 1)
                (failure K (calls w1) AutoTrack, used1, cleared,
                 w1\<lparr>calls := calls w1 @ [AutoTrack]\<rparr>))"
proof -
  have cl: "commandLine (codeLines ! j)" and b: "hd (codeLines ! j) = bang"
    using assms(3) by (simp_all add: shellLine_def)
  obtain c cs where t: "commandText codeLines j = c # cs"
    using assms(4) by (cases "commandText codeLines j") auto
  show ?thesis
    using assms(1,2) b
    by (subst parse_loop.simps)
       (simp add: parseLine_command [OF assms(1) cl] t execShell_run do_call_def Let_def
          split: option.splits)
qed


lemma execInternal_with_inputs:
  assumes "allowStdin msg = Some allow" and "splitCmd cmdStr = ''with_inputs'' # args"
  shows "execInternal K msg cmdStr status w =
          (if \<not> allow \<and> (withInputs status \<or> withPassword status)
           then Inr (Some WithInputsNotAvailable, status, w)
           else Inr (None, status\<lparr>withInputs := True\<rparr>, w))"
  using assms
  by (simp add: execInternal_def allowStdin_def Let_def
       split: message.splits content.splits)

lemma execInternal_with_password:
  assumes "allowStdin msg = Some allow" and "splitCmd cmdStr = ''with_password'' # args"
  shows "execInternal K msg cmdStr status w =
          (if \<not> allow \<and> (withInputs status \<or> withPassword status)
           then Inr (Some WithPasswordNotAvailable, status, w)
           else Inr (None, status\<lparr>withPassword := True\<rparr>, w))"
  using assms
  by (simp add: execInternal_def allowStdin_def Let_def
       split: message.splits content.splits)

lemma parse_loop_with_inputs:
  assumes "i < length codeLines" and "i \<notin> used"
      and "commandLine (codeLines ! i)" and "hd (codeLines ! i) = percent"
      and "splitCmd (commandText codeLines i) = ''with_inputs'' # args"
      and "allowStdin msg = Some allow"
      and "allow \<or> \<not> (withInputs status \<or> withPassword status)"
  shows "parse_loop K msg True codeLines i (err, used, status, w) =
         parse_loop K msg True codeLines (i + 1)
           (None, used \<union> usedByCommand codeLines i, status\<lparr>withInputs := True\<rparr>, w)"
proof -
  have ne: "commandText codeLines i \<noteq> []"
    using assms(5) by (auto simp: splitCmd_def)
  have "parseLine K msg True codeLines i (err, used, status, w) =
          Inr (Next (None, used \<union> usedByCommand codeLines i, status\<lparr>withInputs := True\<rparr>, w))"
    using ne assms(4,5,7)
    by (auto simp add: parseLine_command [OF assms(1,3)]
          execInternal_with_inputs [OF assms(6,5)])
  then show ?thesis
    using assms(1,2) by (subst parse_loop.simps) simp
qed

lemma parse_loop_with_password:
  assumes "i < length codeLines" and "i \<notin> used"
      and "commandLine (codeLines ! i)" and "hd (codeLines ! i) = percent"
      and "splitCmd (commandText codeLines i) = ''with_password'' # args"
      and "allowStdin msg = Some allow"
      and "allow \<or> \<not> (withInputs status \<or> withPassword status)"
  shows "parse_loop K msg True codeLines i (err, used, status, w) =
         parse_loop K msg True codeLines (i + 1)
           (None, used \<union> usedByCommand codeLines i, status\<lparr>withPassword := True\<rparr>, w)"
proof -
  have ne: "commandText codeLines i \<noteq> []"
    using assms(5) by (auto simp: splitCmd_def)
  have "parseLine K msg True codeLines i (err, used, status, w) =
          Inr (Next (None, used \<union> usedByCommand codeLines i, status\<lparr>withPassword := True\<rparr>, w))"
    using ne assms(4,5,7)
    by (auto simp add: parseLine_command [OF assms(1,3)]
          execInternal_with_password [OF assms(6,5)])
  then show ?thesis
    using assms(1,2) by (subst parse_loop.simps) simp
qed

lemma parse_loop_next_shell:
  assumes "a \<le> k" and "k < length codeLines"
      and "\<forall>l. a \<le> l \<and> l < k \<longrightarrow> \<not> shellLine codeLines l \<and> \<not> flagDirective codeLines l"
      and "parse_rounds K (Msg cont n) True codeLines a k (err, used, status, w)
             = Inr (Next (err', used', status', w'))"
      and "k \<notin> used'" and "shellLine codeLines k" and "commandText codeLines k \<noteq> []"
  shows "parse_loop K (Msg cont n) True codeLines a (err, used, status, w) =
      (let run = shellCall w' n (commandText codeLines k) status;
           w1 = w'\<lparr>calls := calls w' @ [run]\<rparr>;
           used1 = used' \<union> usedByCommand codeLines k
       in case failure K (calls w') run of
            Some e \<Rightarrow> Inr (Some e, used1, w1)
          | None \<Rightarrow>
              parse_loop K (Msg cont n) True codeLines (k + 1)
                (failure K (calls w1) AutoTrack, used1, cleared,
                 w1\<lparr>calls := calls w1 @ [AutoTrack]\<rparr>))"
proof -
  have s: "status' = status"
    using assms(3,4) by (rule parse_rounds_status)
  have "parse_loop K (Msg cont n) True codeLines a (err, used, status, w)
          = parse_loop K (Msg cont n) True codeLines k (err', used', status', w')"
    using parse_loop_rounds [of k codeLines a K "Msg cont n" True "(err, used, status, w)"]
      assms(1,2,4) by simp
  also have "\<dots> = parse_loop K (Msg cont n) True codeLines k (err', used', status, w')"
    by (simp only: s)
  also note parse_loop_shell [OF assms(2,5,6,7)]
  finally show ?thesis .
qed

text \<open>
  C7.  Every execution of a shell escape leaves both flags of the cell status false, and
  runs the command with inputs when \<open>withInputs\<close> was set, else with a password when
  \<open>withPassword\<close> was set, else with neither; the delay given is 200 milliseconds.
  \<^verbatim>\<open>%with_inputs\<close> and \<^verbatim>\<open>%with_password\<close> set their flag (they fail when input is not
  allowed and a flag is already set).  In \<open>Parse\<close>: the flags are false when the
  submission starts; the two directives pass their flag on to the next line; the lines
  that are neither a shell escape nor one of the two directives leave the flags as they
  are, so the next shell escape that the loop reaches is run in the mode of the flags; and
  after it the loop goes on with both flags false, so that no later shell escape gets them.
\<close>

theorem shell_input_flags:
  "execShell K (Msg cont n) (c # cs) status w =
     (let cmd = (if c = star then cs else c # cs);
          dir = (if c = star then TempDir (goExec w) else []);
          mode = (if withInputs status then WithInputs 200
                  else if withPassword status then WithPassword 200
                  else NoInput);
          run = Exec cmd n dir mode
      in Inr (failure K (calls w) run, \<lparr>withInputs = False, withPassword = False\<rparr>,
              w\<lparr>calls := calls w @ [run]\<rparr>))
   \<and> (allowStdin msg = Some allow \<and> splitCmd cmdStr = ''with_inputs'' # args \<longrightarrow>
        execInternal K msg cmdStr status w =
          (if \<not> allow \<and> (withInputs status \<or> withPassword status)
           then Inr (Some WithInputsNotAvailable, status, w)
           else Inr (None, status\<lparr>withInputs := True\<rparr>, w)))
   \<and> (allowStdin msg = Some allow \<and> splitCmd cmdStr = ''with_password'' # args \<longrightarrow>
        execInternal K msg cmdStr status w =
          (if \<not> allow \<and> (withInputs status \<or> withPassword status)
           then Inr (Some WithPasswordNotAvailable, status, w)
           else Inr (None, status\<lparr>withPassword := True\<rparr>, w)))
   \<and> Parse K msg execute codeLines usedLines w =
        parse_loop K msg execute codeLines 0
          (None, usedLines, \<lparr>withInputs = False, withPassword = False\<rparr>, w)
   \<and> (i < length codeLines \<and> i \<notin> used \<and>
      commandLine (codeLines ! i) \<and> hd (codeLines ! i) = percent \<and>
      splitCmd (commandText codeLines i) = ''with_inputs'' # args \<and>
      allowStdin msg = Some allow \<and> (allow \<or> \<not> (withInputs status \<or> withPassword status)) \<longrightarrow>
        parse_loop K msg True codeLines i (err, used, status, w) =
        parse_loop K msg True codeLines (i + 1)
          (None, used \<union> usedByCommand codeLines i, status\<lparr>withInputs := True\<rparr>, w))
   \<and> (i < length codeLines \<and> i \<notin> used \<and>
      commandLine (codeLines ! i) \<and> hd (codeLines ! i) = percent \<and>
      splitCmd (commandText codeLines i) = ''with_password'' # args \<and>
      allowStdin msg = Some allow \<and> (allow \<or> \<not> (withInputs status \<or> withPassword status)) \<longrightarrow>
        parse_loop K msg True codeLines i (err, used, status, w) =
        parse_loop K msg True codeLines (i + 1)
          (None, used \<union> usedByCommand codeLines i, status\<lparr>withPassword := True\<rparr>, w))
   \<and> (a \<le> k \<and> k < length codeLines \<and>
      (\<forall>l. a \<le> l \<and> l < k \<longrightarrow> \<not> shellLine codeLines l \<and> \<not> flagDirective codeLines l) \<and>
      parse_rounds K (Msg cont n) True codeLines a k (err, used, status, w)
        = Inr (Next (err', used', status', w')) \<and>
      k \<notin> used' \<and> shellLine codeLines k \<and> commandText codeLines k \<noteq> [] \<longrightarrow>
        status' = status \<and>
        parse_loop K (Msg cont n) True codeLines a (err, used, status, w) =
          (let run = shellCall w' n (commandText codeLines k) status;
               w1 = w'\<lparr>calls := calls w' @ [run]\<rparr>;
               used1 = used' \<union> usedByCommand codeLines k
           in case failure K (calls w') run of
                Some e \<Rightarrow> Inr (Some e, used1, w1)
              | None \<Rightarrow>
                  parse_loop K (Msg cont n) True codeLines (k + 1)
                    (failure K (calls w1) AutoTrack, used1,
                     \<lparr>withInputs = False, withPassword = False\<rparr>,
                     w1\<lparr>calls := calls w1 @ [AutoTrack]\<rparr>)))"
proof (intro conjI impI)
  show "execShell K (Msg cont n) (c # cs) status w =
     (let cmd = (if c = star then cs else c # cs);
          dir = (if c = star then TempDir (goExec w) else []);
          mode = (if withInputs status then WithInputs 200
                  else if withPassword status then WithPassword 200
                  else NoInput);
          run = Exec cmd n dir mode
      in Inr (failure K (calls w) run, \<lparr>withInputs = False, withPassword = False\<rparr>,
              w\<lparr>calls := calls w @ [run]\<rparr>))"
    by (simp add: execShell_run Let_def)
qed (auto simp only: execInternal_with_inputs execInternal_with_password Parse_def
       intro: parse_loop_with_inputs parse_loop_with_password parse_loop_next_shell
         parse_rounds_status)


theorem shell_input_flags_witness:
  "Parse exampleCollaborators exampleMsg True
     [''%with_password'', ''%with_inputs'', ''x := 1'', ''!read x'', ''%noautoget'',
      ''!echo done''] {} exampleWorld
   = Inr (None, {0, 1, 3, 4, 5},
       \<lparr>goExec = exampleGoExec\<lparr>AutoGet := False\<rparr>,
        calls = [Exec ''read x'' 7 [] (WithInputs 200), AutoTrack,
                 Exec ''echo done'' 7 [] NoInput, AutoTrack]\<rparr>)"
proof -
  let ?lines = "[''%with_password'', ''%with_inputs'', ''x := 1'', ''!read x'',
                 ''%noautoget'', ''!echo done'']"
  let ?K = exampleCollaborators
  let ?m = "Msg (MapContent (Some True)) 7"
  let ?both = "\<lparr>withInputs = True, withPassword = True\<rparr>"
  note A = shell_input_flags [THEN conjunct2, THEN conjunct2, THEN conjunct2, THEN conjunct1]
  note Bi = shell_input_flags [THEN conjunct2, THEN conjunct2, THEN conjunct2, THEN conjunct2,
              THEN conjunct1, rule_format]
  note Bp = shell_input_flags [THEN conjunct2, THEN conjunct2, THEN conjunct2, THEN conjunct2,
              THEN conjunct2, THEN conjunct1, rule_format]
  note X = shell_input_flags [THEN conjunct2, THEN conjunct2, THEN conjunct2, THEN conjunct2,
              THEN conjunct2, THEN conjunct2, rule_format]
  have t: "commandText ?lines 0 = ''with_password''" "commandText ?lines 1 = ''with_inputs''"
          "commandText ?lines 3 = ''read x''"
    by (simp_all add: commandText_def endsWithBackslash_def)
  have s: "splitCmd ''with_password'' = ''with_password'' # []"
          "splitCmd ''with_inputs'' = ''with_inputs'' # []"
    by code_simp+
  have u: "usedByCommand ?lines 0 = {0}" "usedByCommand ?lines 1 = {1}"
          "usedByCommand ?lines 3 = {3}"
    by (auto simp add: usedByCommand_def endsWithBackslash_def)
  have al: "allowStdin ?m = Some True"
    by (simp add: allowStdin_def)
  have "Parse ?K ?m True ?lines {} exampleWorld =
          parse_loop ?K ?m True ?lines 0
            (None, {}, \<lparr>withInputs = False, withPassword = False\<rparr>, exampleWorld)"
    by (rule A)
  also have "\<dots> = parse_loop ?K ?m True ?lines (0 + 1)
            (None, {} \<union> usedByCommand ?lines 0,
             \<lparr>withInputs = False, withPassword = False\<rparr>\<lparr>withPassword := True\<rparr>, exampleWorld)"
    by (rule Bp [where allow = True and args = "[]"]) (simp_all add: t s al commandLine_def)
  also have "\<dots> = parse_loop ?K ?m True ?lines 1
            (None, {0}, \<lparr>withInputs = False, withPassword = True\<rparr>, exampleWorld)"
  proof -
    have "(0::nat) + 1 = 1" by simp
    moreover have "{} \<union> usedByCommand ?lines 0 = {0}" unfolding u by simp
    moreover have "\<lparr>withInputs = False, withPassword = False\<rparr>\<lparr>withPassword := True\<rparr>
                     = \<lparr>withInputs = False, withPassword = True\<rparr>" by simp
    ultimately show ?thesis by (simp only:)
  qed
  also have "\<dots> = parse_loop ?K ?m True ?lines (1 + 1)
            (None, {0} \<union> usedByCommand ?lines 1,
             \<lparr>withInputs = False, withPassword = True\<rparr>\<lparr>withInputs := True\<rparr>, exampleWorld)"
    by (rule Bi [where allow = True and args = "[]"])
       (simp_all add: t s al commandLine_def del: One_nat_def)
  also have "\<dots> = parse_loop ?K ?m True ?lines 2 (None, {0, 1}, ?both, exampleWorld)"
  proof -
    have "(1::nat) + 1 = 2" by simp
    moreover have "{0} \<union> usedByCommand ?lines 1 = {0, 1}" unfolding u by auto
    moreover have "\<lparr>withInputs = False, withPassword = True\<rparr>\<lparr>withInputs := True\<rparr> = ?both"
      by simp
    ultimately show ?thesis by (simp only:)
  qed
  also have "\<dots> =
      (let run = shellCall exampleWorld 7 (commandText ?lines 3) ?both;
           w1 = exampleWorld\<lparr>calls := calls exampleWorld @ [run]\<rparr>;
           used1 = {0, 1} \<union> usedByCommand ?lines 3
       in case failure ?K (calls exampleWorld) run of
            Some e \<Rightarrow> Inr (Some e, used1, w1)
          | None \<Rightarrow>
              parse_loop ?K ?m True ?lines (3 + 1)
                (failure ?K (calls w1) AutoTrack, used1,
                 \<lparr>withInputs = False, withPassword = False\<rparr>,
                 w1\<lparr>calls := calls w1 @ [AutoTrack]\<rparr>))"
  proof (rule X [THEN conjunct2])
    show "2 \<le> (3::nat) \<and> 3 < length ?lines \<and>
      (\<forall>l. 2 \<le> l \<and> l < 3 \<longrightarrow> \<not> shellLine ?lines l \<and> \<not> flagDirective ?lines l) \<and>
      parse_rounds ?K ?m True ?lines 2 3 (None, {0, 1}, ?both, exampleWorld)
        = Inr (Next (None, {0, 1}, ?both, exampleWorld)) \<and>
      3 \<notin> {0, 1 :: nat} \<and> shellLine ?lines 3 \<and> commandText ?lines 3 \<noteq> []"
    proof (intro conjI allI impI)
      fix l :: nat assume "2 \<le> l \<and> l < 3"
      then have l: "l = 2" by simp
      show "\<not> shellLine ?lines l" by (simp add: l shellLine_def commandLine_def)
      show "\<not> flagDirective ?lines l" by (simp add: l flagDirective_def commandLine_def)
    next
      have "parseLine ?K ?m True ?lines 2 (None, {0, 1}, ?both, exampleWorld)
              = Inr (Next (None, {0, 1}, ?both, exampleWorld))"
        by (rule parseLine_other) (simp add: commandLine_def)
      then show "parse_rounds ?K ?m True ?lines 2 3 (None, {0, 1}, ?both, exampleWorld)
        = Inr (Next (None, {0, 1}, ?both, exampleWorld))"
        by (simp add: parse_rounds.simps [of _ _ _ _ 2] parse_rounds.simps [of _ _ _ _ 3])
    qed (simp_all add: t shellLine_def commandLine_def)
  qed
  also have "\<dots> = parse_loop ?K ?m True ?lines 4
                (None, {0, 1, 3}, \<lparr>withInputs = False, withPassword = False\<rparr>,
                 exampleWorld\<lparr>calls := [Exec ''read x'' 7 [] (WithInputs 200), AutoTrack]\<rparr>)"
  proof -
    have "(3::nat) + 1 = 4" by simp
    moreover have "{0, 1} \<union> usedByCommand ?lines 3 = {0, 1, 3}" unfolding u by auto
    moreover have "shellCall exampleWorld 7 (commandText ?lines 3) ?both
                     = Exec ''read x'' 7 [] (WithInputs 200)"
      unfolding t by simp
    moreover have "failure ?K cs c = None" for cs c
      by (simp add: exampleCollaborators_def)
    moreover have "exampleWorld\<lparr>calls := calls exampleWorld @ [Exec ''read x'' 7 [] (WithInputs 200)]\<rparr>
                     \<lparr>calls := calls (exampleWorld\<lparr>calls := calls exampleWorld
                          @ [Exec ''read x'' 7 [] (WithInputs 200)]\<rparr>) @ [AutoTrack]\<rparr>
                   = exampleWorld\<lparr>calls := [Exec ''read x'' 7 [] (WithInputs 200), AutoTrack]\<rparr>"
      by (simp add: exampleWorld_def)
    ultimately show ?thesis by (simp only: Let_def option.case)
  qed
  also have "\<dots> = Inr (None, {0, 1, 3, 4, 5},
       \<lparr>goExec = exampleGoExec\<lparr>AutoGet := False\<rparr>,
        calls = [Exec ''read x'' 7 [] (WithInputs 200), AutoTrack,
                 Exec ''echo done'' 7 [] NoInput, AutoTrack]\<rparr>)"
    by code_simp
  finally show ?thesis
    by (simp add: exampleMsg_def)
qed

text \<open>
  A submission with both directives and two shell escapes: the first one is run with
  inputs, the second with neither.
\<close>

lemma flags_apply_to_next_shell_only:
  "Parse exampleCollaborators exampleMsg True
     [''%with_password'', ''%with_inputs'', ''!read x'', ''!echo done''] {} exampleWorld
   = Inr (None, {0, 1, 2, 3},
       exampleWorld\<lparr>calls := [Exec ''read x'' 7 [] (WithInputs 200), AutoTrack,
                                Exec ''echo done'' 7 [] NoInput, AutoTrack]\<rparr>)"
  by code_simp

subsection \<open>The file-writing directive\<close>

lemma execWriteFile_calls:
  "execWriteFile K msg args cmdBody w =
    (let parse = FlagsParse K args {''append''} [''a'' \<mapsto> ''append''];
         filename = (case parse ''-pos1'' of
                       Some f \<Rightarrow> f
                     | None \<Rightarrow> UniqueID (goExec w) @ ''.out'');
         opening = OpenFile filename
            ({O_RDWR, O_CREATE} \<union> (if parse ''append'' = None then {O_TRUNC} else {O_APPEND}))
            0x1B6;
         writing = WriteString cmdBody;
         success = PublishWriteStream StreamStdout (WriteSuccess filename)
     in case failure K (calls w) opening of
          Some e \<Rightarrow> (Some e, w\<lparr>calls := calls w @ [opening]\<rparr>)
        | None \<Rightarrow>
           (case failure K (calls w @ [opening]) writing of
              Some e \<Rightarrow> (Some e, w\<lparr>calls := calls w @ [opening, writing, CloseFile]\<rparr>)
            | None \<Rightarrow>
                (failure K (calls w @ [opening, writing]) success,
                 w\<lparr>calls := calls w @ [opening, writing, success, CloseFile]\<rparr>)))"
  unfolding execWriteFile_def do_call_def just_call_def Let_def
  by (cases "FlagsParse K args {''append''} [''a'' \<mapsto> ''append''] ''append''")
     (simp_all split: option.splits)

text \<open>
  C5.  For a \<^verbatim>\<open>%writefile\<close> directive that starts at line \<open>lineNum\<close>, the body is made
  of the lines after \<open>lineNum\<close> up to, and without, the first one that begins with \<^verbatim>\<open>%\<close>
  or \<^verbatim>\<open>!\<close> (or up to the end), each followed by a newline, and these lines are added to
  the used lines.  The file named by the first positional argument (by default the unique
  id with \<^verbatim>\<open>.out\<close>) is opened for reading and writing, created if needed, and truncated,
  or opened for appending when the parsed flags have \<^verbatim>\<open>append\<close>; the body is written to
  it; the success is published and the file closed.  An error of one of these calls is
  returned by \<open>Parse\<close>.
\<close>

theorem writefile_body:
  assumes "lineNum < length codeLines" and "commandLine (codeLines ! lineNum)"
      and "hd (codeLines ! lineNum) = percent"
      and "splitCmd (commandText codeLines lineNum) = ''writefile'' # args"
  shows "parseLine K msg True codeLines lineNum (err, usedLines, status, w) =
    (let body = bodyText (bodyLines codeLines lineNum);
         used = usedLines \<union> usedByCommand codeLines lineNum
                  \<union> {lineNum + 1 ..< lineNum + 1 + length (bodyLines codeLines lineNum)};
         parse = FlagsParse K args {''append''} [''a'' \<mapsto> ''append''];
         filename = (case parse ''-pos1'' of
                       Some f \<Rightarrow> f
                     | None \<Rightarrow> UniqueID (goExec w) @ ''.out'');
         opening = OpenFile filename
            ({O_RDWR, O_CREATE} \<union> (if parse ''append'' = None then {O_TRUNC} else {O_APPEND}))
            0x1B6;
         writing = WriteString body;
         success = PublishWriteStream StreamStdout (WriteSuccess filename)
     in case failure K (calls w) opening of
          Some e \<Rightarrow> Inr (Return (Some e, used, status, w\<lparr>calls := calls w @ [opening]\<rparr>))
        | None \<Rightarrow>
           (case failure K (calls w @ [opening]) writing of
              Some e \<Rightarrow>
                Inr (Return (Some e, used, status,
                       w\<lparr>calls := calls w @ [opening, writing, CloseFile]\<rparr>))
            | None \<Rightarrow>
               (case failure K (calls w @ [opening, writing]) success of
                  Some e \<Rightarrow>
                    Inr (Return (Some e, used, status,
                           w\<lparr>calls := calls w @ [opening, writing, success, CloseFile]\<rparr>))
                | None \<Rightarrow>
                    Inr (Next (None, used, status,
                           w\<lparr>calls := calls w @ [opening, writing, success, CloseFile]\<rparr>)))))"
proof -
  have ne: "commandText codeLines lineNum \<noteq> []"
    using assms(4) by (auto simp: splitCmd_def)
  have u: "insert lineNum (usedLines \<union> usedByCommand codeLines lineNum) = usedLines \<union> usedByCommand codeLines lineNum"
  proof -
    have "codeLines ! lineNum \<noteq> []"
      using assms(2) by (auto simp: commandLine_def)
    then have "0 < consumed (drop lineNum codeLines)"
      using assms(1) by (simp add: drop_as_Cons)
    then have "lineNum \<in> usedByCommand codeLines lineNum"
      by (simp add: usedByCommand_def)
    then show ?thesis by auto
  qed
  show ?thesis
    using ne assms(3,4)
    unfolding parseLine_command [OF assms(1,2)] parseCmdBody_body execWriteFile_calls Let_def
    by (cases "FlagsParse K args {''append''} [''a'' \<mapsto> ''append''] ''append''")
       (simp_all add: u split: option.splits)
qed

theorem writefile_body_witness:
  "parseLine exampleCollaborators exampleMsg True
     [''%writefile -a out.txt'', ''hello'', [], ''world'', ''!cat out.txt'', ''x''] 0
     (None, {}, \<lparr>withInputs = False, withPassword = False\<rparr>, exampleWorld) =
   Inr (Next (None, {0, 1, 2, 3}, \<lparr>withInputs = False, withPassword = False\<rparr>,
     exampleWorld\<lparr>calls :=
       [OpenFile ''out.txt'' {O_RDWR, O_CREATE, O_APPEND} 0x1B6,
        WriteString (''hello'' @ [newline] @ [newline] @ ''world'' @ [newline]),
        PublishWriteStream StreamStdout (WriteSuccess ''out.txt''),
        CloseFile]\<rparr>))
   \<and> parseLine exampleCollaborators exampleMsg True
     [''x'', ''%writefile'', ''y'', ''%help''] 1
     (None, {}, \<lparr>withInputs = False, withPassword = False\<rparr>, exampleWorld) =
   Inr (Next (None, {1, 2}, \<lparr>withInputs = False, withPassword = False\<rparr>,
     exampleWorld\<lparr>calls :=
       [OpenFile ''gonb_1.out'' {O_RDWR, O_CREATE, O_TRUNC} 0x1B6,
        WriteString (''y'' @ [newline]),
        PublishWriteStream StreamStdout (WriteSuccess ''gonb_1.out''),
        CloseFile]\<rparr>))"
proof -
  let ?a = "[''%writefile -a out.txt'', ''hello'', [], ''world'', ''!cat out.txt'', ''x'']"
  let ?b = "[''x'', ''%writefile'', ''y'', ''%help'']"
  have ta: "commandText ?a 0 = ''writefile -a out.txt''"
   and tb: "commandText ?b 1 = ''writefile''"
    by (simp_all add: commandText_def endsWithBackslash_def)
  have sa: "splitCmd ''writefile -a out.txt'' = ''writefile'' # [''-a'', ''out.txt'']"
   and sb: "splitCmd ''writefile'' = ''writefile'' # []"
    by code_simp+
  have ba: "bodyLines ?a 0 = [''hello'', [], ''world'']"
   and bb: "bodyLines ?b 1 = [''y'']"
    by (simp_all add: bodyLines_def startsWithMagic_def)
  have ua: "usedByCommand ?a 0 = {0}" and ub: "usedByCommand ?b 1 = {1}"
    by (auto simp add: usedByCommand_def endsWithBackslash_def)
  have ia: "insert 0 {1..<4} = {0, 1, 2, 3 :: nat}"
   and ib: "insert (1::nat) {2..<3} = {1, 2 :: nat}"
   and ic: "insert (Suc 0) {2..<3} = {Suc 0, 2 :: nat}"
    by auto
  have a: "parseLine exampleCollaborators exampleMsg True ?a 0
     (None, {}, \<lparr>withInputs = False, withPassword = False\<rparr>, exampleWorld) =
   Inr (Next (None, {0, 1, 2, 3}, \<lparr>withInputs = False, withPassword = False\<rparr>,
     exampleWorld\<lparr>calls :=
       [OpenFile ''out.txt'' {O_RDWR, O_CREATE, O_APPEND} 0x1B6,
        WriteString (''hello'' @ [newline] @ [newline] @ ''world'' @ [newline]),
        PublishWriteStream StreamStdout (WriteSuccess ''out.txt''),
        CloseFile]\<rparr>))"
    by (subst writefile_body [where args = "[''-a'', ''out.txt'']"])
       (simp_all add: ta sa ba ua ia commandLine_def bodyText_def exampleCollaborators_def
          exampleFlagsParse_def exampleWorld_def Let_def del: One_nat_def)
  have b: "parseLine exampleCollaborators exampleMsg True ?b 1
     (None, {}, \<lparr>withInputs = False, withPassword = False\<rparr>, exampleWorld) =
   Inr (Next (None, {1, 2}, \<lparr>withInputs = False, withPassword = False\<rparr>,
     exampleWorld\<lparr>calls :=
       [OpenFile ''gonb_1.out'' {O_RDWR, O_CREATE, O_TRUNC} 0x1B6,
        WriteString (''y'' @ [newline]),
        PublishWriteStream StreamStdout (WriteSuccess ''gonb_1.out''),
        CloseFile]\<rparr>))"
    by (subst writefile_body [where args = "[]"])
       (simp_all add: tb sb bb ub ib ic commandLine_def bodyText_def exampleCollaborators_def
          exampleFlagsParse_def exampleWorld_def exampleGoExec_def Let_def del: One_nat_def)
  show ?thesis
    using a b by (rule conjI)
qed

subsection \<open>Escapes in splitCmd\<close>

text \<open>
  One round of the loop of \<open>splitCmd\<close> on a backslash.  Inside quotes the backslash and
  the byte after it are consumed, and \<^verbatim>\<open>n\<close> gives a newline, \<^verbatim>\<open>t\<close> a tab, and any other
  byte below 128 itself.  Outside quotes the backslash is appended to the part as any other
  byte is.
\<close>

lemma fmt_c_ascii: "(of_char c :: nat) < 128 \<Longrightarrow> fmt_c c = [c]"
  by (simp add: fmt_c_def)

lemma escape_in_quotes:
  "splitCmd_loop parts part partStarted True (backslash # c # cs) =
     splitCmd_loop parts (part @ fmt_c (escaped c)) True True cs"
  by (simp add: isSpace_def)

lemma escape_in_quotes_ascii:
  "splitCmd_loop parts part partStarted True (backslash # CHR ''n'' # cs) =
     splitCmd_loop parts (part @ [newline]) True True cs"
  "splitCmd_loop parts part partStarted True (backslash # CHR ''t'' # cs) =
     splitCmd_loop parts (part @ [tab]) True True cs"
  "c \<noteq> CHR ''n'' \<Longrightarrow> c \<noteq> CHR ''t'' \<Longrightarrow> (of_char c :: nat) < 128 \<Longrightarrow>
   splitCmd_loop parts part partStarted True (backslash # c # cs) =
     splitCmd_loop parts (part @ [c]) True True cs"
  by (simp_all add: isSpace_def escaped_def fmt_c_def)

lemma backslash_outside_quotes:
  "splitCmd_loop parts part partStarted False (backslash # cs) =
     splitCmd_loop parts (part @ [backslash]) True False cs"
  by (simp add: isSpace_def fmt_c_def)

lemma escapes_example:
  "splitCmd (''a'' @ [backslash] @ ''n '' @ [dquote] @ ''b'' @ [backslash] @ ''n''
             @ [backslash] @ ''t'' @ [backslash, dquote] @ ''c d'' @ [dquote])
     = [''a'' @ [backslash] @ ''n'', ''b'' @ [newline, tab, dquote] @ ''c d'']"
  by code_simp

text \<open>
  C4.  Inside quotes a backslash before a byte that is not below 128 does not give that
  byte: a quoted backslash followed by the two bytes \<open>0xC3 0xA9\<close> (the letter e with an
  acute accent in UTF-8) gives the four bytes \<open>0xC3 0x83 0xC2 0xA9\<close>, because each byte
  is printed with \<^verbatim>\<open>%c\<close> as a code point of its own.
\<close>

theorem escaped_byte_not_literal:
  "splitCmd [dquote, backslash, CHR 0xC3, CHR 0xA9, dquote]
     = [[CHR 0xC3, CHR 0x83, CHR 0xC2, CHR 0xA9]]"
  by code_simp

end
